theory Spec2Isabelle
  imports Complex_Main
begin

section \<open>Data model of rate_limiter.py\<close>

text \<open>
  Python floats are modelled as reals (exact arithmetic), Python ints as \<open>int\<close>.
  Every call of \<open>time.time()\<close> is an explicit argument of the operation that makes it,
  named after its call site: \<open>t_new\<close> is the reading taken by the \<open>defaultdict\<close> factory
  (used only when the client has no record yet), \<open>now\<close> is the reading bound to the
  variable \<open>now\<close>, and \<open>t_reset\<close>, \<open>t_append\<close> are the readings taken while the response
  is built. Exceptions are values of \<open>py_error\<close>; an operation returns \<open>Inl e\<close> when the
  source raises. Rounding, infinities and NaN of IEEE floats are not modelled: every
  statement below is about exact arithmetic.
\<close>

datatype py_error = ZeroDivisionError | IndexError | ValueError

datatype RateLimitAlgorithm =
  TOKEN_BUCKET | SLIDING_WINDOW | LEAKY_BUCKET | FIXED_WINDOW | SLIDING_WINDOW_LOG

record RateLimitConfig =
  max_requests :: int
  time_window :: int
  algorithm :: RateLimitAlgorithm
  burst_size :: "int option"
  refill_rate :: "real option"
  distributed :: bool
  redis_url :: string

record RateLimitResponse =
  allowed :: bool
  remaining :: int
  reset_time :: int
  retry_after :: "int option"
  requests_in_window :: int

text \<open>Python's \<open>int(x)\<close> on a float: truncation towards zero.\<close>

definition py_int :: "real \<Rightarrow> int" where
  "py_int x = (if 0 \<le> x then \<lfloor>x\<rfloor> else \<lceil>x\<rceil>)"

text \<open>Python's true division \<open>a / b\<close>: raises on a zero divisor.\<close>

definition py_truediv :: "real \<Rightarrow> real \<Rightarrow> py_error + real" where
  "py_truediv a b = (if b = 0 then Inl ZeroDivisionError else Inr (a / b))"

text \<open>\<open>config.burst_size or config.max_requests\<close>: \<open>None\<close> and \<open>0\<close> are falsy.\<close>

definition burst_or_max :: "RateLimitConfig \<Rightarrow> int" where
  "burst_or_max config =
     (case burst_size config of
        None \<Rightarrow> max_requests config
      | Some b \<Rightarrow> if b = 0 then max_requests config else b)"

section \<open>TokenBucketLimiter\<close>

record tb_bucket =
  tokens :: real
  last_refill :: real
  bucket_burst_size :: int

record TokenBucketLimiter =
  tb_config :: RateLimitConfig
  tb_buckets :: "string \<rightharpoonup> tb_bucket"
  tb_refill_rate :: real

text \<open>The factory of the \<open>defaultdict\<close>; \<open>t_new\<close> is its \<open>time.time()\<close>.\<close>

definition tb_default_bucket :: "RateLimitConfig \<Rightarrow> real \<Rightarrow> tb_bucket" where
  "tb_default_bucket config t_new =
     \<lparr>tokens = of_int (max_requests config), last_refill = t_new,
      bucket_burst_size = burst_or_max config\<rparr>"

text \<open>\<open>self.buckets[client_id]\<close>: a missing key is created from the factory and stored.\<close>

definition tb_getitem ::
  "TokenBucketLimiter \<Rightarrow> string \<Rightarrow> real \<Rightarrow> tb_bucket \<times> TokenBucketLimiter" where
  "tb_getitem self client_id t_new =
     (case tb_buckets self client_id of
        Some b \<Rightarrow> (b, self)
      | None \<Rightarrow>
          (let b = tb_default_bucket (tb_config self) t_new
           in (b, self\<lparr>tb_buckets := (tb_buckets self)(client_id \<mapsto> b)\<rparr>)))"

text \<open>\<open>__init__\<close>: \<open>if config.refill_rate\<close> is false for \<open>None\<close> and for \<open>0.0\<close>.\<close>

definition TokenBucketLimiter_init :: "RateLimitConfig \<Rightarrow> py_error + TokenBucketLimiter" where
  "TokenBucketLimiter_init config =
     (let dflt =
            (case py_truediv (of_int (max_requests config)) (of_int (time_window config)) of
               Inl e \<Rightarrow> Inl e
             | Inr r \<Rightarrow> Inr \<lparr>tb_config = config, tb_buckets = Map.empty, tb_refill_rate = r\<rparr>)
      in case refill_rate config of
           None \<Rightarrow> dflt
         | Some r \<Rightarrow>
             if r \<noteq> 0
             then Inr \<lparr>tb_config = config, tb_buckets = Map.empty, tb_refill_rate = r\<rparr>
             else dflt)"

definition TokenBucketLimiter_refill ::
  "TokenBucketLimiter \<Rightarrow> string \<Rightarrow> real \<Rightarrow> real \<Rightarrow> real \<times> TokenBucketLimiter" where
  "TokenBucketLimiter_refill self client_id t_new now =
     (let (bucket, self1) = tb_getitem self client_id t_new;
          elapsed = now - last_refill bucket;
          tokens_to_add = elapsed * tb_refill_rate self1;
          bucket1 = bucket\<lparr>tokens := min (tokens bucket + tokens_to_add)
                                        (of_int (bucket_burst_size bucket))\<rparr>;
          bucket2 = bucket1\<lparr>last_refill := now\<rparr>
      in (tokens bucket2, self1\<lparr>tb_buckets := (tb_buckets self1)(client_id \<mapsto> bucket2)\<rparr>))"

text \<open>
  \<open>is_allowed\<close>. The second \<open>self.buckets[client_id]\<close> always finds the key that
  \<open>_refill\<close> has just stored, so its factory never runs.
\<close>

definition TokenBucketLimiter_is_allowed ::
  "TokenBucketLimiter \<Rightarrow> string \<Rightarrow> real \<Rightarrow> real \<Rightarrow> real
     \<Rightarrow> py_error + (RateLimitResponse \<times> TokenBucketLimiter)" where
  "TokenBucketLimiter_is_allowed self client_id t_new now t_reset =
     (let self1 = snd (TokenBucketLimiter_refill self client_id t_new now);
          (bucket, self2) = tb_getitem self1 client_id t_reset;
          config = tb_config self2
      in if tokens bucket \<ge> 1
         then
           (let bucket1 = bucket\<lparr>tokens := tokens bucket - 1\<rparr>;
                rt = py_int (of_int (time_window config) + t_reset)
            in Inr (\<lparr>allowed = True,
                     remaining = py_int (tokens bucket1),
                     reset_time = rt,
                     retry_after = None,
                     requests_in_window = max_requests config - py_int (tokens bucket1)\<rparr>,
                    self2\<lparr>tb_buckets := (tb_buckets self2)(client_id \<mapsto> bucket1)\<rparr>))
         else
           (case py_truediv 1 (tb_refill_rate self2) of
              Inl e \<Rightarrow> Inl e
            | Inr q \<Rightarrow>
                (let ra = py_int q;
                     rt = py_int (t_reset + of_int ra)
                 in Inr (\<lparr>allowed = False,
                          remaining = 0,
                          reset_time = rt,
                          retry_after = Some ra,
                          requests_in_window = max_requests config\<rparr>,
                         self2))))"

definition TokenBucketLimiter_reset ::
  "TokenBucketLimiter \<Rightarrow> string \<Rightarrow> real \<Rightarrow> TokenBucketLimiter" where
  "TokenBucketLimiter_reset self client_id t_new =
     self\<lparr>tb_buckets := (tb_buckets self)(client_id \<mapsto> tb_default_bucket (tb_config self) t_new)\<rparr>"

record tb_status =
  tbs_algorithm :: string
  tbs_tokens :: real
  tbs_max_tokens :: int
  tbs_refill_rate :: real

definition TokenBucketLimiter_get_status ::
  "TokenBucketLimiter \<Rightarrow> string \<Rightarrow> real \<Rightarrow> real \<Rightarrow> tb_status \<times> TokenBucketLimiter" where
  "TokenBucketLimiter_get_status self client_id t_new now =
     (let self1 = snd (TokenBucketLimiter_refill self client_id t_new now);
          (bucket, self2) = tb_getitem self1 client_id now
      in (\<lparr>tbs_algorithm = ''token_bucket'',
           tbs_tokens = tokens bucket,
           tbs_max_tokens = bucket_burst_size bucket,
           tbs_refill_rate = tb_refill_rate self2\<rparr>, self2))"

section \<open>SlidingWindowLimiter\<close>

record SlidingWindowLimiter =
  sw_config :: RateLimitConfig
  sw_windows :: "string \<rightharpoonup> real list"

definition SlidingWindowLimiter_init :: "RateLimitConfig \<Rightarrow> SlidingWindowLimiter" where
  "SlidingWindowLimiter_init config = \<lparr>sw_config = config, sw_windows = Map.empty\<rparr>"

text \<open>\<open>self.windows[client_id]\<close> on a \<open>defaultdict(deque)\<close>.\<close>

definition sw_getitem :: "SlidingWindowLimiter \<Rightarrow> string \<Rightarrow> real list" where
  "sw_getitem self client_id = (case sw_windows self client_id of None \<Rightarrow> [] | Some w \<Rightarrow> w)"

text \<open>\<open>while window and window[0] < window_start: window.popleft()\<close>\<close>

fun sw_evict :: "real \<Rightarrow> real list \<Rightarrow> real list" where
  "sw_evict window_start [] = []"
| "sw_evict window_start (t # ts) =
     (if t < window_start then sw_evict window_start ts else t # ts)"

definition SlidingWindowLimiter_is_allowed ::
  "SlidingWindowLimiter \<Rightarrow> string \<Rightarrow> real
     \<Rightarrow> py_error + (RateLimitResponse \<times> SlidingWindowLimiter)" where
  "SlidingWindowLimiter_is_allowed self client_id now =
     (let config = sw_config self;
          window_start = now - of_int (time_window config);
          window = sw_evict window_start (sw_getitem self client_id);
          riw = int (length window);
          rt = (if window \<noteq> [] then py_int (of_int (time_window config) + now)
                else py_int (now + of_int (time_window config)))
      in if riw < max_requests config
         then Inr (\<lparr>allowed = True,
                    remaining = max_requests config - riw - 1,
                    reset_time = rt,
                    retry_after = None,
                    requests_in_window = riw + 1\<rparr>,
                   self\<lparr>sw_windows := (sw_windows self)(client_id \<mapsto> window @ [now])\<rparr>)
         else
           (case window of
              [] \<Rightarrow> Inl IndexError
            | w0 # _ \<Rightarrow>
                Inr (\<lparr>allowed = False,
                      remaining = 0,
                      reset_time = rt,
                      retry_after = Some (py_int (w0 - window_start + 1)),
                      requests_in_window = riw\<rparr>,
                     self\<lparr>sw_windows := (sw_windows self)(client_id \<mapsto> window)\<rparr>)))"

definition SlidingWindowLimiter_reset :: "SlidingWindowLimiter \<Rightarrow> string \<Rightarrow> SlidingWindowLimiter" where
  "SlidingWindowLimiter_reset self client_id =
     self\<lparr>sw_windows := (sw_windows self)(client_id \<mapsto> [])\<rparr>"

record sw_status =
  sws_algorithm :: string
  sws_requests_in_window :: int
  sws_max_requests :: int
  sws_window_size :: int

definition SlidingWindowLimiter_get_status ::
  "SlidingWindowLimiter \<Rightarrow> string \<Rightarrow> real \<Rightarrow> sw_status \<times> SlidingWindowLimiter" where
  "SlidingWindowLimiter_get_status self client_id now =
     (let config = sw_config self;
          window_start = now - of_int (time_window config);
          window = sw_getitem self client_id
      in (\<lparr>sws_algorithm = ''sliding_window'',
           sws_requests_in_window = int (length (filter (\<lambda>t. t \<ge> window_start) window)),
           sws_max_requests = max_requests config,
           sws_window_size = time_window config\<rparr>,
          self\<lparr>sw_windows := (sw_windows self)(client_id \<mapsto> window)\<rparr>))"

section \<open>LeakyBucketLimiter\<close>

record lb_bucket =
  queue :: "real list"
  last_leak_time :: real
  total_leaked :: int

record LeakyBucketLimiter =
  lb_config :: RateLimitConfig
  lb_buckets :: "string \<rightharpoonup> lb_bucket"
  leak_rate :: real

definition lb_default_bucket :: "real \<Rightarrow> lb_bucket" where
  "lb_default_bucket t_new = \<lparr>queue = [], last_leak_time = t_new, total_leaked = 0\<rparr>"

definition lb_getitem ::
  "LeakyBucketLimiter \<Rightarrow> string \<Rightarrow> real \<Rightarrow> lb_bucket \<times> LeakyBucketLimiter" where
  "lb_getitem self client_id t_new =
     (case lb_buckets self client_id of
        Some b \<Rightarrow> (b, self)
      | None \<Rightarrow>
          (let b = lb_default_bucket t_new
           in (b, self\<lparr>lb_buckets := (lb_buckets self)(client_id \<mapsto> b)\<rparr>)))"

definition LeakyBucketLimiter_init :: "RateLimitConfig \<Rightarrow> py_error + LeakyBucketLimiter" where
  "LeakyBucketLimiter_init config =
     (case py_truediv (of_int (max_requests config)) (of_int (time_window config)) of
        Inl e \<Rightarrow> Inl e
      | Inr r \<Rightarrow> Inr \<lparr>lb_config = config, lb_buckets = Map.empty, leak_rate = r\<rparr>)"

text \<open>
  \<open>for _ in range(requests_to_leak): if bucket['queue']: popleft; total_leaked += 1\<close>;
  \<open>range\<close> of a non-positive number is empty, hence the \<open>nat\<close> counter.
\<close>

fun lb_leak_loop :: "nat \<Rightarrow> lb_bucket \<Rightarrow> lb_bucket" where
  "lb_leak_loop 0 bucket = bucket"
| "lb_leak_loop (Suc n) bucket =
     lb_leak_loop n
       (case queue bucket of
          [] \<Rightarrow> bucket
        | _ # q \<Rightarrow> bucket\<lparr>queue := q, total_leaked := total_leaked bucket + 1\<rparr>)"

definition LeakyBucketLimiter_leak ::
  "LeakyBucketLimiter \<Rightarrow> string \<Rightarrow> real \<Rightarrow> real \<Rightarrow> int \<times> LeakyBucketLimiter" where
  "LeakyBucketLimiter_leak self client_id t_new now =
     (let (bucket, self1) = lb_getitem self client_id t_new;
          elapsed = now - last_leak_time bucket;
          requests_to_leak = py_int (elapsed * leak_rate self1);
          bucket1 = lb_leak_loop (nat requests_to_leak) bucket;
          bucket2 = bucket1\<lparr>last_leak_time := now\<rparr>
      in (int (length (queue bucket2)),
          self1\<lparr>lb_buckets := (lb_buckets self1)(client_id \<mapsto> bucket2)\<rparr>))"

text \<open>
  \<open>is_allowed\<close>: \<open>t_append\<close> is the reading stored in the queue, \<open>t_reset\<close> the one used
  for \<open>reset_time\<close> (in either branch).
\<close>

definition LeakyBucketLimiter_is_allowed ::
  "LeakyBucketLimiter \<Rightarrow> string \<Rightarrow> real \<Rightarrow> real \<Rightarrow> real \<Rightarrow> real
     \<Rightarrow> py_error + (RateLimitResponse \<times> LeakyBucketLimiter)" where
  "LeakyBucketLimiter_is_allowed self client_id t_new now t_append t_reset =
     (let (queue_size, self1) = LeakyBucketLimiter_leak self client_id t_new now;
          (bucket, self2) = lb_getitem self1 client_id t_append;
          config = lb_config self2
      in if queue_size < max_requests config
         then
           (let bucket1 = bucket\<lparr>queue := queue bucket @ [t_append]\<rparr>;
                rt = py_int (of_int (time_window config) + t_reset)
            in Inr (\<lparr>allowed = True,
                     remaining = max_requests config - queue_size - 1,
                     reset_time = rt,
                     retry_after = None,
                     requests_in_window = queue_size + 1\<rparr>,
                    self2\<lparr>lb_buckets := (lb_buckets self2)(client_id \<mapsto> bucket1)\<rparr>))
         else
           (case py_truediv 1 (leak_rate self2) of
              Inl e \<Rightarrow> Inl e
            | Inr q \<Rightarrow>
                (let ra = py_int q
                 in Inr (\<lparr>allowed = False,
                          remaining = 0,
                          reset_time = py_int (t_reset + of_int ra),
                          retry_after = Some ra,
                          requests_in_window = queue_size\<rparr>,
                         self2))))"

definition LeakyBucketLimiter_reset ::
  "LeakyBucketLimiter \<Rightarrow> string \<Rightarrow> real \<Rightarrow> LeakyBucketLimiter" where
  "LeakyBucketLimiter_reset self client_id t_new =
     self\<lparr>lb_buckets := (lb_buckets self)(client_id \<mapsto> lb_default_bucket t_new)\<rparr>"

record lb_status =
  lbs_algorithm :: string
  lbs_queue_size :: int
  lbs_max_capacity :: int
  lbs_leak_rate :: real
  lbs_total_leaked :: int

definition LeakyBucketLimiter_get_status ::
  "LeakyBucketLimiter \<Rightarrow> string \<Rightarrow> real \<Rightarrow> real \<Rightarrow> lb_status \<times> LeakyBucketLimiter" where
  "LeakyBucketLimiter_get_status self client_id t_new now =
     (let (queue_size, self1) = LeakyBucketLimiter_leak self client_id t_new now;
          (bucket, self2) = lb_getitem self1 client_id now
      in (\<lparr>lbs_algorithm = ''leaky_bucket'',
           lbs_queue_size = queue_size,
           lbs_max_capacity = max_requests (lb_config self2),
           lbs_leak_rate = leak_rate self2,
           lbs_total_leaked = total_leaked bucket\<rparr>, self2))"

section \<open>FixedWindowLimiter\<close>

record fw_window =
  count :: int
  window_start :: real

record FixedWindowLimiter =
  fw_config :: RateLimitConfig
  fw_windows :: "string \<rightharpoonup> fw_window"

definition FixedWindowLimiter_init :: "RateLimitConfig \<Rightarrow> FixedWindowLimiter" where
  "FixedWindowLimiter_init config = \<lparr>fw_config = config, fw_windows = Map.empty\<rparr>"

definition fw_default_window :: "real \<Rightarrow> fw_window" where
  "fw_default_window t_new = \<lparr>count = 0, window_start = t_new\<rparr>"

definition fw_getitem :: "FixedWindowLimiter \<Rightarrow> string \<Rightarrow> real \<Rightarrow> fw_window" where
  "fw_getitem self client_id t_new =
     (case fw_windows self client_id of Some w \<Rightarrow> w | None \<Rightarrow> fw_default_window t_new)"

text \<open>
  \<open>if now - window['window_start'] >= self.config.time_window: ...\<close>, shared by
  \<open>is_allowed\<close> and \<open>get_status\<close>.
\<close>

definition fw_roll :: "RateLimitConfig \<Rightarrow> real \<Rightarrow> fw_window \<Rightarrow> fw_window" where
  "fw_roll config now window =
     (if now - window_start window \<ge> of_int (time_window config)
      then window\<lparr>count := 0, window_start := now\<rparr>
      else window)"

text \<open>In \<open>is_allowed\<close> the variable \<open>now\<close> is read before the factory reads \<open>t_new\<close>.\<close>

definition FixedWindowLimiter_is_allowed ::
  "FixedWindowLimiter \<Rightarrow> string \<Rightarrow> real \<Rightarrow> real \<Rightarrow> RateLimitResponse \<times> FixedWindowLimiter" where
  "FixedWindowLimiter_is_allowed self client_id now t_new =
     (let config = fw_config self;
          window = fw_roll config now (fw_getitem self client_id t_new);
          rt = py_int (window_start window + of_int (time_window config))
      in if count window < max_requests config
         then
           (let window1 = window\<lparr>count := count window + 1\<rparr>
            in (\<lparr>allowed = True,
                 remaining = max_requests config - count window1,
                 reset_time = rt,
                 retry_after = None,
                 requests_in_window = count window1\<rparr>,
                self\<lparr>fw_windows := (fw_windows self)(client_id \<mapsto> window1)\<rparr>))
         else
           (\<lparr>allowed = False,
             remaining = 0,
             reset_time = rt,
             retry_after = Some (py_int (of_int rt - now)),
             requests_in_window = count window\<rparr>,
            self\<lparr>fw_windows := (fw_windows self)(client_id \<mapsto> window)\<rparr>))"

definition FixedWindowLimiter_reset ::
  "FixedWindowLimiter \<Rightarrow> string \<Rightarrow> real \<Rightarrow> FixedWindowLimiter" where
  "FixedWindowLimiter_reset self client_id t_new =
     self\<lparr>fw_windows := (fw_windows self)(client_id \<mapsto> fw_default_window t_new)\<rparr>"

record fw_status =
  fws_algorithm :: string
  fws_count :: int
  fws_max_requests :: int
  fws_window_reset_in :: int

definition FixedWindowLimiter_get_status ::
  "FixedWindowLimiter \<Rightarrow> string \<Rightarrow> real \<Rightarrow> real \<Rightarrow> fw_status \<times> FixedWindowLimiter" where
  "FixedWindowLimiter_get_status self client_id now t_new =
     (let config = fw_config self;
          window = fw_roll config now (fw_getitem self client_id t_new)
      in (\<lparr>fws_algorithm = ''fixed_window'',
           fws_count = count window,
           fws_max_requests = max_requests config,
           fws_window_reset_in =
             py_int (window_start window + of_int (time_window config) - now)\<rparr>,
          self\<lparr>fw_windows := (fw_windows self)(client_id \<mapsto> window)\<rparr>))"

section \<open>RateLimiterFactory\<close>

datatype limiter_class =
  TokenBucketLimiter_class | SlidingWindowLimiter_class
| LeakyBucketLimiter_class | FixedWindowLimiter_class

datatype Limiter =
  TokenBucket TokenBucketLimiter
| SlidingWindow SlidingWindowLimiter
| LeakyBucket LeakyBucketLimiter
| FixedWindow FixedWindowLimiter
| Distributed RateLimitConfig

text \<open>The class attribute \<open>_limiters\<close> as the module defines it.\<close>

definition limiters_registry :: "RateLimitAlgorithm \<rightharpoonup> limiter_class" where
  "limiters_registry =
     [TOKEN_BUCKET \<mapsto> TokenBucketLimiter_class,
      SLIDING_WINDOW \<mapsto> SlidingWindowLimiter_class,
      LEAKY_BUCKET \<mapsto> LeakyBucketLimiter_class,
      FIXED_WINDOW \<mapsto> FixedWindowLimiter_class]"

definition construct :: "limiter_class \<Rightarrow> RateLimitConfig \<Rightarrow> py_error + Limiter" where
  "construct cls config =
     (case cls of
        TokenBucketLimiter_class \<Rightarrow> map_sum id TokenBucket (TokenBucketLimiter_init config)
      | SlidingWindowLimiter_class \<Rightarrow> Inr (SlidingWindow (SlidingWindowLimiter_init config))
      | LeakyBucketLimiter_class \<Rightarrow> map_sum id LeakyBucket (LeakyBucketLimiter_init config)
      | FixedWindowLimiter_class \<Rightarrow> Inr (FixedWindow (FixedWindowLimiter_init config)))"

text \<open>
  \<open>RateLimiterFactory.create\<close>, with the registry \<open>cls._limiters\<close> as a parameter
  (\<open>register\<close> may extend it). The distributed limiter is only recorded by its
  configuration: its store is outside this development.
\<close>

definition RateLimiterFactory_create ::
  "(RateLimitAlgorithm \<rightharpoonup> limiter_class) \<Rightarrow> RateLimitConfig \<Rightarrow> py_error + Limiter" where
  "RateLimiterFactory_create limiters config =
     (if distributed config then Inr (Distributed config)
      else case limiters (algorithm config) of
             None \<Rightarrow> Inl ValueError
           | Some cls \<Rightarrow> construct cls config)"

definition RateLimiterFactory_register ::
  "(RateLimitAlgorithm \<rightharpoonup> limiter_class) \<Rightarrow> RateLimitAlgorithm \<Rightarrow> limiter_class
     \<Rightarrow> (RateLimitAlgorithm \<rightharpoonup> limiter_class)" where
  "RateLimiterFactory_register limiters alg cls = limiters(alg \<mapsto> cls)"

section \<open>Scripted runs\<close>

text \<open>
  A run issues one \<open>is_allowed\<close> per list element against a clock that is scripted to
  return that element for every reading of the call; an exception ends the run.
\<close>

fun TokenBucketLimiter_run ::
  "TokenBucketLimiter \<Rightarrow> string \<Rightarrow> real list
     \<Rightarrow> py_error + (RateLimitResponse list \<times> TokenBucketLimiter)" where
  "TokenBucketLimiter_run self client_id [] = Inr ([], self)"
| "TokenBucketLimiter_run self client_id (t # ts) =
     (case TokenBucketLimiter_is_allowed self client_id t t t of
        Inl e \<Rightarrow> Inl e
      | Inr (r, self1) \<Rightarrow>
          (case TokenBucketLimiter_run self1 client_id ts of
             Inl e \<Rightarrow> Inl e
           | Inr (rs, self2) \<Rightarrow> Inr (r # rs, self2)))"

text \<open>Calls of several clients against one sliding-window limiter: \<open>(client_id, now)\<close>.\<close>

fun SlidingWindowLimiter_run ::
  "SlidingWindowLimiter \<Rightarrow> (string \<times> real) list
     \<Rightarrow> py_error + (RateLimitResponse list \<times> SlidingWindowLimiter)" where
  "SlidingWindowLimiter_run self [] = Inr ([], self)"
| "SlidingWindowLimiter_run self ((client_id, now) # calls) =
     (case SlidingWindowLimiter_is_allowed self client_id now of
        Inl e \<Rightarrow> Inl e
      | Inr (r, self1) \<Rightarrow>
          (case SlidingWindowLimiter_run self1 calls of
             Inl e \<Rightarrow> Inl e
           | Inr (rs, self2) \<Rightarrow> Inr (r # rs, self2)))"

fun LeakyBucketLimiter_run ::
  "LeakyBucketLimiter \<Rightarrow> string \<Rightarrow> real list
     \<Rightarrow> py_error + (RateLimitResponse list \<times> LeakyBucketLimiter)" where
  "LeakyBucketLimiter_run self client_id [] = Inr ([], self)"
| "LeakyBucketLimiter_run self client_id (t # ts) =
     (case LeakyBucketLimiter_is_allowed self client_id t t t t of
        Inl e \<Rightarrow> Inl e
      | Inr (r, self1) \<Rightarrow>
          (case LeakyBucketLimiter_run self1 client_id ts of
             Inl e \<Rightarrow> Inl e
           | Inr (rs, self2) \<Rightarrow> Inr (r # rs, self2)))"

fun FixedWindowLimiter_run ::
  "FixedWindowLimiter \<Rightarrow> string \<Rightarrow> real list
     \<Rightarrow> RateLimitResponse list \<times> FixedWindowLimiter" where
  "FixedWindowLimiter_run self client_id [] = ([], self)"
| "FixedWindowLimiter_run self client_id (t # ts) =
     (let (r, self1) = FixedWindowLimiter_is_allowed self client_id t t;
          (rs, self2) = FixedWindowLimiter_run self1 client_id ts
      in (r # rs, self2))"

text \<open>
  The clock readings of the admitted calls of one client in a run, in call order.
\<close>

fun admitted_at :: "string \<Rightarrow> (string \<times> real) list \<Rightarrow> RateLimitResponse list \<Rightarrow> real list" where
  "admitted_at c ((client_id, now) # calls) (r # rs) =
     (if client_id = c \<and> allowed r then now # admitted_at c calls rs
      else admitted_at c calls rs)"
| "admitted_at c _ _ = []"

text \<open>
  A limiter object whose immutable attributes (\<open>config\<close>, the rates) are those that
  \<open>__init__\<close> computes from \<open>config\<close>; the per-client records are arbitrary. Every state
  that the operations reach from a constructed limiter is of this kind.
\<close>

definition tb_built :: "RateLimitConfig \<Rightarrow> TokenBucketLimiter \<Rightarrow> bool" where
  "tb_built config self =
     (case TokenBucketLimiter_init config of
        Inl e \<Rightarrow> False
      | Inr b \<Rightarrow> tb_config self = tb_config b \<and> tb_refill_rate self = tb_refill_rate b)"

definition sw_built :: "RateLimitConfig \<Rightarrow> SlidingWindowLimiter \<Rightarrow> bool" where
  "sw_built config self = (sw_config self = sw_config (SlidingWindowLimiter_init config))"

definition lb_built :: "RateLimitConfig \<Rightarrow> LeakyBucketLimiter \<Rightarrow> bool" where
  "lb_built config self =
     (case LeakyBucketLimiter_init config of
        Inl e \<Rightarrow> False
      | Inr b \<Rightarrow> lb_config self = lb_config b \<and> leak_rate self = leak_rate b)"

definition fw_built :: "RateLimitConfig \<Rightarrow> FixedWindowLimiter \<Rightarrow> bool" where
  "fw_built config self = (fw_config self = fw_config (FixedWindowLimiter_init config))"

text \<open>
  Invariant of one client's log \<open>dq\<close> against the history \<open>H\<close> of its admitted clock
  readings, at the latest clock reading \<open>T\<close>: both are ascending and not beyond \<open>T\<close>, they
  agree on every suffix that starts at or after \<open>T - W\<close>, and the history never has more
  than \<open>cap\<close> entries in a closed interval of length \<open>W\<close>. Used only in the proof of the
  admission bound.
\<close>

definition sw_inv :: "real \<Rightarrow> int \<Rightarrow> real \<Rightarrow> real list \<Rightarrow> real list \<Rightarrow> bool" where
  "sw_inv W cap T dq H \<longleftrightarrow>
     sorted dq \<and> sorted H \<and> (\<forall>t\<in>set dq. t \<le> T) \<and> (\<forall>t\<in>set H. t \<le> T)
     \<and> (\<forall>x. T - W \<le> x \<longrightarrow> filter (\<lambda>t. x \<le> t) H = filter (\<lambda>t. x \<le> t) dq)
     \<and> (\<forall>a. int (length (filter (\<lambda>t. a \<le> t \<and> t \<le> a + W) H)) \<le> cap)"

text \<open>Policies used as concrete inputs.\<close>

definition policy :: "int \<Rightarrow> int \<Rightarrow> RateLimitAlgorithm \<Rightarrow> RateLimitConfig" where
  "policy cap win alg =
     \<lparr>max_requests = cap, time_window = win, algorithm = alg, burst_size = None,
      refill_rate = None, distributed = False, redis_url = ''redis://localhost:6379/0''\<rparr>"

section \<open>Arithmetic of \<open>int()\<close>\<close>

lemma py_int_nonneg: "0 \<le> x \<Longrightarrow> py_int x = \<lfloor>x\<rfloor>"
  by (simp add: py_int_def)

lemma py_int_lower: "x - 1 < of_int (py_int x)"
  unfolding py_int_def by (simp; linarith)

lemma py_int_upper: "of_int (py_int x) < x + 1"
  unfolding py_int_def by (simp; linarith)

lemma py_int_of_int [simp]: "py_int (of_int k) = k"
  by (simp add: py_int_def)

lemma py_int_zero [simp]: "py_int 0 = 0"
  by (simp add: py_int_def)

section \<open>TokenBucket: rejection outputs\<close>

text \<open>
  C4 (as amended). Whenever fewer than one token is available after the refill (and the
  refill rate is not zero), \<open>is_allowed\<close> returns \<open>allowed = False\<close>, \<open>remaining = 0\<close>,
  \<open>requests_in_window = max_requests\<close>, \<open>retry_after = int(1 / refill_rate)\<close>, truncated
  towards zero and not rounded up, and \<open>reset_time = int(t + retry_after)\<close> for the clock
  reading \<open>t\<close> taken while the response is built; the state is the refilled one.
\<close>

theorem tb_rejection_outputs:
  assumes "fst (TokenBucketLimiter_refill self client_id t_new now) < 1"
      and "tb_refill_rate self \<noteq> 0"
  shows "TokenBucketLimiter_is_allowed self client_id t_new now t_reset =
     Inr (\<lparr>allowed = False, remaining = 0,
           reset_time = py_int (t_reset + of_int (py_int (1 / tb_refill_rate self))),
           retry_after = Some (py_int (1 / tb_refill_rate self)),
           requests_in_window = max_requests (tb_config self)\<rparr>,
          snd (TokenBucketLimiter_refill self client_id t_new now))"
  using assms
  by (auto simp: TokenBucketLimiter_is_allowed_def TokenBucketLimiter_refill_def tb_getitem_def
        py_truediv_def Let_def split: option.splits prod.splits)

text \<open>
  Witness: capacity 2 per 1 second (rate 2 tokens/s), a drained bucket, the clock at 1/2.
\<close>

theorem tb_rejection_outputs_witness:
  "TokenBucketLimiter_is_allowed
     \<lparr>tb_config = policy 2 1 TOKEN_BUCKET,
      tb_buckets = [''c1'' \<mapsto> \<lparr>tokens = 0, last_refill = 1/2, bucket_burst_size = 2\<rparr>],
      tb_refill_rate = 2\<rparr> ''c1'' (1/2) (1/2) (1/2) =
   Inr (\<lparr>allowed = False, remaining = 0, reset_time = 0, retry_after = Some 0,
         requests_in_window = 2\<rparr>,
        \<lparr>tb_config = policy 2 1 TOKEN_BUCKET,
         tb_buckets = [''c1'' \<mapsto> \<lparr>tokens = 0, last_refill = 1/2, bucket_burst_size = 2\<rparr>],
         tb_refill_rate = 2\<rparr>)"
proof -
  let ?self = "\<lparr>tb_config = policy 2 1 TOKEN_BUCKET,
      tb_buckets = [''c1'' \<mapsto> \<lparr>tokens = 0, last_refill = 1/2, bucket_burst_size = 2\<rparr>],
      tb_refill_rate = 2\<rparr>"
  have h1: "fst (TokenBucketLimiter_refill ?self ''c1'' (1/2) (1/2)) < 1"
    by (simp add: TokenBucketLimiter_refill_def tb_getitem_def)
  have h2: "tb_refill_rate ?self \<noteq> 0" by simp
  show ?thesis
    using tb_rejection_outputs [OF h1 h2, of "1/2"]
    by (simp add: TokenBucketLimiter_refill_def tb_getitem_def py_int_def policy_def)
qed

text \<open>
  The claim as stated fails: with capacity 2 per 1 second the limiter built by the
  constructor rejects the third call at clock 0 with \<open>retry_after = 0\<close>, while
  \<open>ceil(1 / refill_rate) = 1\<close>.
\<close>

theorem tb_retry_after_ceil_counterexample:
  "TokenBucketLimiter_init (policy 2 1 TOKEN_BUCKET) =
     Inr \<lparr>tb_config = policy 2 1 TOKEN_BUCKET, tb_buckets = Map.empty, tb_refill_rate = 2\<rparr>
   \<and> map_sum id (map (\<lambda>r. (allowed r, retry_after r)) \<circ> fst)
       (TokenBucketLimiter_run
          \<lparr>tb_config = policy 2 1 TOKEN_BUCKET, tb_buckets = Map.empty, tb_refill_rate = 2\<rparr>
          ''c1'' [0, 0, 0])
     = Inr [(True, None), (True, None), (False, Some 0)]
   \<and> \<lceil>1 / (2::real)\<rceil> = 1"
  by (simp add: TokenBucketLimiter_init_def TokenBucketLimiter_is_allowed_def
        TokenBucketLimiter_refill_def tb_getitem_def py_truediv_def Let_def
        tb_default_bucket_def burst_or_max_def policy_def py_int_def ceiling_eq_iff)

section \<open>Immutable attributes and totality of the operations\<close>


lemma tb_getitem_attrs [simp]:
  "tb_config (snd (tb_getitem self c t)) = tb_config self"
  "tb_refill_rate (snd (tb_getitem self c t)) = tb_refill_rate self"
  by (simp_all add: tb_getitem_def Let_def split: option.splits)

lemma tb_refill_attrs [simp]:
  "tb_config (snd (TokenBucketLimiter_refill self c t now)) = tb_config self"
  "tb_refill_rate (snd (TokenBucketLimiter_refill self c t now)) = tb_refill_rate self"
  by (simp_all add: TokenBucketLimiter_refill_def Let_def split: prod.splits)
     (metis snd_conv tb_getitem_attrs)+

lemma tb_is_allowed_total:
  assumes "tb_refill_rate self \<noteq> 0"
  shows "\<exists>r s. TokenBucketLimiter_is_allowed self c t1 t2 t3 = Inr (r, s)
           \<and> tb_config s = tb_config self \<and> tb_refill_rate s = tb_refill_rate self"
proof -
  obtain b s2 where g: "tb_getitem (snd (TokenBucketLimiter_refill self c t1 t2)) c t3 = (b, s2)"
    by (cases "tb_getitem (snd (TokenBucketLimiter_refill self c t1 t2)) c t3")
  have a: "tb_config s2 = tb_config self" "tb_refill_rate s2 = tb_refill_rate self"
    using tb_getitem_attrs [of "snd (TokenBucketLimiter_refill self c t1 t2)" c t3] g by simp_all
  show ?thesis
    using assms a g by (simp add: TokenBucketLimiter_is_allowed_def py_truediv_def Let_def)
qed

lemma tb_get_status_attrs [simp]:
  "tb_config (snd (TokenBucketLimiter_get_status self c t now)) = tb_config self"
  "tb_refill_rate (snd (TokenBucketLimiter_get_status self c t now)) = tb_refill_rate self"
proof -
  obtain b s2 where g: "tb_getitem (snd (TokenBucketLimiter_refill self c t now)) c now = (b, s2)"
    by (cases "tb_getitem (snd (TokenBucketLimiter_refill self c t now)) c now")
  have a: "tb_config s2 = tb_config self" "tb_refill_rate s2 = tb_refill_rate self"
    using tb_getitem_attrs [of "snd (TokenBucketLimiter_refill self c t now)" c now] g by simp_all
  show "tb_config (snd (TokenBucketLimiter_get_status self c t now)) = tb_config self"
       "tb_refill_rate (snd (TokenBucketLimiter_get_status self c t now)) = tb_refill_rate self"
    using a g by (simp_all add: TokenBucketLimiter_get_status_def Let_def)
qed

lemma tb_reset_attrs [simp]:
  "tb_config (TokenBucketLimiter_reset self c t) = tb_config self"
  "tb_refill_rate (TokenBucketLimiter_reset self c t) = tb_refill_rate self"
  by (simp_all add: TokenBucketLimiter_reset_def)

lemma tb_init_total:
  assumes "time_window config \<noteq> 0"
  shows "\<exists>b. TokenBucketLimiter_init config = Inr b \<and> tb_config b = config
             \<and> tb_buckets b = Map.empty"
  using assms by (auto simp: TokenBucketLimiter_init_def py_truediv_def Let_def split: option.splits)

lemma tb_built_rate:
  assumes "0 < max_requests config" "0 < time_window config" "tb_built config self"
  shows "tb_refill_rate self \<noteq> 0" "tb_config self = config"
  using assms
  by (auto simp: tb_built_def TokenBucketLimiter_init_def py_truediv_def Let_def
      split: option.splits sum.splits if_splits)

lemma tb_built_cong:
  "tb_config s = tb_config self \<Longrightarrow> tb_refill_rate s = tb_refill_rate self
     \<Longrightarrow> tb_built config self \<Longrightarrow> tb_built config s"
  by (simp add: tb_built_def split: sum.splits)

lemma tb_built_init:
  "TokenBucketLimiter_init config = Inr b \<Longrightarrow> tb_built config b"
  by (simp add: tb_built_def)

lemma sw_is_allowed_total:
  assumes "0 < max_requests (sw_config self)"
  shows "\<exists>r s. SlidingWindowLimiter_is_allowed self c now = Inr (r, s)
           \<and> sw_config s = sw_config self"
  using assms
  by (cases "sw_evict (now - real_of_int (time_window (sw_config self))) (sw_getitem self c)")
     (auto simp: SlidingWindowLimiter_is_allowed_def Let_def)

lemma sw_attrs [simp]:
  "sw_config (SlidingWindowLimiter_reset self c) = sw_config self"
  "sw_config (snd (SlidingWindowLimiter_get_status self c now)) = sw_config self"
  "sw_config (SlidingWindowLimiter_init config) = config"
  by (simp_all add: SlidingWindowLimiter_reset_def SlidingWindowLimiter_get_status_def
        SlidingWindowLimiter_init_def Let_def)

lemma lb_getitem_attrs [simp]:
  "lb_config (snd (lb_getitem self c t)) = lb_config self"
  "leak_rate (snd (lb_getitem self c t)) = leak_rate self"
  by (simp_all add: lb_getitem_def Let_def split: option.splits)

lemma lb_leak_attrs [simp]:
  "lb_config (snd (LeakyBucketLimiter_leak self c t now)) = lb_config self"
  "leak_rate (snd (LeakyBucketLimiter_leak self c t now)) = leak_rate self"
  by (simp_all add: LeakyBucketLimiter_leak_def Let_def split: prod.splits)
     (metis snd_conv lb_getitem_attrs)+

lemma lb_is_allowed_total:
  assumes "leak_rate self \<noteq> 0"
  shows "\<exists>r s. LeakyBucketLimiter_is_allowed self c t1 t2 t3 t4 = Inr (r, s)
           \<and> lb_config s = lb_config self \<and> leak_rate s = leak_rate self"
proof -
  obtain n s1 where l: "LeakyBucketLimiter_leak self c t1 t2 = (n, s1)"
    by (cases "LeakyBucketLimiter_leak self c t1 t2")
  obtain b s2 where g: "lb_getitem s1 c t3 = (b, s2)"
    by (cases "lb_getitem s1 c t3")
  have a1: "lb_config s1 = lb_config self" "leak_rate s1 = leak_rate self"
    using lb_leak_attrs [of self c t1 t2] l by simp_all
  have a: "lb_config s2 = lb_config self" "leak_rate s2 = leak_rate self"
    using lb_getitem_attrs [of s1 c t3] g a1 by simp_all
  show ?thesis
    using assms a g l by (simp add: LeakyBucketLimiter_is_allowed_def py_truediv_def Let_def)
qed

lemma lb_get_status_attrs [simp]:
  "lb_config (snd (LeakyBucketLimiter_get_status self c t now)) = lb_config self"
  "leak_rate (snd (LeakyBucketLimiter_get_status self c t now)) = leak_rate self"
proof -
  obtain n s1 where l: "LeakyBucketLimiter_leak self c t now = (n, s1)"
    by (cases "LeakyBucketLimiter_leak self c t now")
  obtain b s2 where g: "lb_getitem s1 c now = (b, s2)"
    by (cases "lb_getitem s1 c now")
  have a1: "lb_config s1 = lb_config self" "leak_rate s1 = leak_rate self"
    using lb_leak_attrs [of self c t now] l by simp_all
  have a: "lb_config s2 = lb_config self" "leak_rate s2 = leak_rate self"
    using lb_getitem_attrs [of s1 c now] g a1 by simp_all
  show "lb_config (snd (LeakyBucketLimiter_get_status self c t now)) = lb_config self"
       "leak_rate (snd (LeakyBucketLimiter_get_status self c t now)) = leak_rate self"
    using a g l by (simp_all add: LeakyBucketLimiter_get_status_def Let_def)
qed

lemma lb_reset_attrs [simp]:
  "lb_config (LeakyBucketLimiter_reset self c t) = lb_config self"
  "leak_rate (LeakyBucketLimiter_reset self c t) = leak_rate self"
  by (simp_all add: LeakyBucketLimiter_reset_def)

lemma lb_init_total:
  assumes "time_window config \<noteq> 0"
  shows "\<exists>b. LeakyBucketLimiter_init config = Inr b \<and> lb_config b = config
             \<and> lb_buckets b = Map.empty
             \<and> leak_rate b = of_int (max_requests config) / of_int (time_window config)"
  using assms by (auto simp: LeakyBucketLimiter_init_def py_truediv_def)

lemma lb_built_rate:
  assumes "0 < max_requests config" "0 < time_window config" "lb_built config self"
  shows "leak_rate self \<noteq> 0" "lb_config self = config"
        "leak_rate self = of_int (max_requests config) / of_int (time_window config)"
  using assms
  by (auto simp: lb_built_def LeakyBucketLimiter_init_def py_truediv_def
      split: sum.splits if_splits)

lemma lb_built_cong:
  "lb_config s = lb_config self \<Longrightarrow> leak_rate s = leak_rate self
     \<Longrightarrow> lb_built config self \<Longrightarrow> lb_built config s"
  by (simp add: lb_built_def split: sum.splits)

lemma fw_attrs [simp]:
  "fw_config (snd (FixedWindowLimiter_is_allowed self c now t)) = fw_config self"
  "fw_config (FixedWindowLimiter_reset self c t) = fw_config self"
  "fw_config (snd (FixedWindowLimiter_get_status self c now t)) = fw_config self"
  "fw_config (FixedWindowLimiter_init config) = config"
  by (simp_all add: FixedWindowLimiter_is_allowed_def FixedWindowLimiter_reset_def
        FixedWindowLimiter_get_status_def FixedWindowLimiter_init_def Let_def)

lemma create_registered:
  assumes "\<not> distributed config" "algorithm config \<noteq> SLIDING_WINDOW_LOG"
  shows "(\<exists>e. RateLimiterFactory_create limiters_registry config = Inl e) \<longleftrightarrow>
           (time_window config = 0 \<and>
            (algorithm config = LEAKY_BUCKET \<or>
             algorithm config = TOKEN_BUCKET \<and>
               (refill_rate config = None \<or> refill_rate config = Some 0)))"
   and "RateLimiterFactory_create limiters_registry config \<noteq> Inl ValueError"
   and "RateLimiterFactory_create limiters_registry config \<noteq> Inl IndexError"
  using assms
  by (cases "algorithm config";
      auto simp: RateLimiterFactory_create_def limiters_registry_def construct_def
        TokenBucketLimiter_init_def LeakyBucketLimiter_init_def py_truediv_def Let_def
        split: option.splits sum.splits if_splits)+

lemma tb_no_ValueError:
  "TokenBucketLimiter_is_allowed self c t1 t2 t3 \<noteq> Inl ValueError"
  "TokenBucketLimiter_is_allowed self c t1 t2 t3 \<noteq> Inl IndexError"
  by (auto simp: TokenBucketLimiter_is_allowed_def py_truediv_def Let_def split: prod.splits sum.splits if_splits)

lemma sw_no_ValueError:
  "SlidingWindowLimiter_is_allowed self c now \<noteq> Inl ValueError"
  "SlidingWindowLimiter_is_allowed self c now \<noteq> Inl ZeroDivisionError"
  by (auto simp: SlidingWindowLimiter_is_allowed_def Let_def split: list.splits)

lemma lb_no_ValueError:
  "LeakyBucketLimiter_is_allowed self c t1 t2 t3 t4 \<noteq> Inl ValueError"
  "LeakyBucketLimiter_is_allowed self c t1 t2 t3 t4 \<noteq> Inl IndexError"
  by (auto simp: LeakyBucketLimiter_is_allowed_def py_truediv_def Let_def split: prod.splits sum.splits if_splits)

section \<open>Factory\<close>

text \<open>
  C6. The enumeration declares five algorithm tags, but the registry \<open>_limiters\<close> holds
  four classes: for \<open>SLIDING_WINDOW_LOG\<close> with \<open>distributed = False\<close> the factory raises
  \<open>ValueError("Unknown algorithm")\<close> instead of returning a limiter.
\<close>

theorem create_rejects_sliding_window_log:
  "RateLimiterFactory_create limiters_registry (policy 10 60 SLIDING_WINDOW_LOG) = Inl ValueError"
  by (simp add: RateLimiterFactory_create_def limiters_registry_def policy_def)

text \<open>
  C5 (as amended). Construction validates nothing. For a policy that is not distributed
  and names one of the four registered algorithms, \<open>RateLimiterFactory.create\<close> fails
  exactly when \<open>time_window = 0\<close> and the class divides by it (LeakyBucket, or TokenBucket
  without a non-zero explicit \<open>refill_rate\<close>), and then with \<open>ZeroDivisionError\<close>; no
  capacity, no negative window and no burst size is rejected. No \<open>is_allowed\<close> raises the
  factory's configuration error \<open>ValueError\<close> (FixedWindow's \<open>is_allowed\<close> raises nothing
  at all, so it returns a plain pair).
\<close>

theorem create_performs_no_validation:
  assumes "\<not> distributed config" "algorithm config \<noteq> SLIDING_WINDOW_LOG"
  shows "((\<exists>e. RateLimiterFactory_create limiters_registry config = Inl e) \<longleftrightarrow>
           (time_window config = 0 \<and>
            (algorithm config = LEAKY_BUCKET \<or>
             algorithm config = TOKEN_BUCKET \<and>
               (refill_rate config = None \<or> refill_rate config = Some 0))))
       \<and> RateLimiterFactory_create limiters_registry config \<noteq> Inl ValueError
       \<and> RateLimiterFactory_create limiters_registry config \<noteq> Inl IndexError
       \<and> TokenBucketLimiter_is_allowed tb client_id t1 t2 t3 \<noteq> Inl ValueError
       \<and> SlidingWindowLimiter_is_allowed sw client_id t2 \<noteq> Inl ValueError
       \<and> LeakyBucketLimiter_is_allowed lb client_id t1 t2 t3 t4 \<noteq> Inl ValueError"
  using create_registered [OF assms]
  by (simp add: tb_no_ValueError sw_no_ValueError lb_no_ValueError)

text \<open>Witness: capacity 10 per 60 seconds with \<open>burst_size = 5\<close>.\<close>

theorem create_performs_no_validation_witness:
  "\<not> distributed ((policy 10 60 TOKEN_BUCKET)\<lparr>burst_size := Some 5\<rparr>)
   \<and> algorithm ((policy 10 60 TOKEN_BUCKET)\<lparr>burst_size := Some 5\<rparr>) \<noteq> SLIDING_WINDOW_LOG
   \<and> RateLimiterFactory_create limiters_registry
        ((policy 10 60 TOKEN_BUCKET)\<lparr>burst_size := Some 5\<rparr>) \<noteq> Inl ZeroDivisionError
   \<and> RateLimiterFactory_create limiters_registry
        ((policy 10 60 TOKEN_BUCKET)\<lparr>burst_size := Some 5\<rparr>) \<noteq> Inl ValueError"
proof -
  let ?c = "(policy 10 60 TOKEN_BUCKET)\<lparr>burst_size := Some 5\<rparr>"
  have h1: "\<not> distributed ?c" by (simp add: policy_def)
  have h2: "algorithm ?c \<noteq> SLIDING_WINDOW_LOG" by (simp add: policy_def)
  have "time_window ?c \<noteq> 0" by (simp add: policy_def)
  then show ?thesis
    using h1 h2 create_performs_no_validation [OF h1 h2] by blast
qed

text \<open>
  The claim as stated fails: a burst below the capacity, a negative capacity and a zero
  window are all accepted, and a zero window makes TokenBucket's constructor raise
  \<open>ZeroDivisionError\<close>, not a configuration error.
\<close>

theorem construction_accepts_invalid_policy_counterexample:
  "TokenBucketLimiter_init ((policy 10 60 TOKEN_BUCKET)\<lparr>burst_size := Some 5\<rparr>) =
     Inr \<lparr>tb_config = (policy 10 60 TOKEN_BUCKET)\<lparr>burst_size := Some 5\<rparr>,
          tb_buckets = Map.empty, tb_refill_rate = 1 / 6\<rparr>
   \<and> RateLimiterFactory_create limiters_registry (policy (- 1) 10 SLIDING_WINDOW) =
       Inr (SlidingWindow \<lparr>sw_config = policy (- 1) 10 SLIDING_WINDOW, sw_windows = Map.empty\<rparr>)
   \<and> RateLimiterFactory_create limiters_registry (policy 10 0 FIXED_WINDOW) =
       Inr (FixedWindow \<lparr>fw_config = policy 10 0 FIXED_WINDOW, fw_windows = Map.empty\<rparr>)
   \<and> RateLimiterFactory_create limiters_registry (policy 10 0 TOKEN_BUCKET) =
       Inl ZeroDivisionError"
  by (simp add: RateLimiterFactory_create_def limiters_registry_def construct_def
        TokenBucketLimiter_init_def SlidingWindowLimiter_init_def FixedWindowLimiter_init_def
        py_truediv_def policy_def)

section \<open>Client identifiers\<close>

text \<open>
  C7 (as amended). \<open>is_allowed\<close> does not validate \<open>client_id\<close>: it is only a dictionary
  key. For every limiter built from a policy with positive capacity and window and for
  every \<open>client_id\<close>, the empty string included, \<open>is_allowed\<close> returns a response.
\<close>

theorem decide_accepts_every_client_id:
  assumes "0 < max_requests config" "0 < time_window config"
      and "tb_built config tb" "sw_built config sw" "lb_built config lb" "fw_built config fw"
  shows "(\<exists>r s. TokenBucketLimiter_is_allowed tb client_id t1 t2 t3 = Inr (r, s))
       \<and> (\<exists>r s. SlidingWindowLimiter_is_allowed sw client_id t2 = Inr (r, s))
       \<and> (\<exists>r s. LeakyBucketLimiter_is_allowed lb client_id t1 t2 t3 t4 = Inr (r, s))
       \<and> (\<exists>r s. FixedWindowLimiter_is_allowed fw client_id t2 t1 = (r, s))"
proof -
  have sw: "0 < max_requests (sw_config sw)"
    using assms(1,4) by (simp add: sw_built_def)
  show ?thesis
    using tb_is_allowed_total [OF tb_built_rate(1) [OF assms(1,2,3)], of client_id t1 t2 t3]
          sw_is_allowed_total [OF sw, of client_id t2]
          lb_is_allowed_total [OF lb_built_rate(1) [OF assms(1,2,5)], of client_id t1 t2 t3 t4]
    by (metis surj_pair)
qed

text \<open>
  The claim as stated fails: the empty \<open>client_id\<close> is admitted like any other new client.
\<close>

theorem empty_client_id_admitted_counterexample:
  "map_sum id fst
     (SlidingWindowLimiter_is_allowed (SlidingWindowLimiter_init (policy 5 10 SLIDING_WINDOW)) [] 0)
   = Inr \<lparr>allowed = True, remaining = 4, reset_time = 10, retry_after = None,
          requests_in_window = 1\<rparr>
   \<and> map_sum id (map allowed \<circ> fst)
       (TokenBucketLimiter_run
          \<lparr>tb_config = policy 2 1 TOKEN_BUCKET, tb_buckets = Map.empty, tb_refill_rate = 2\<rparr>
          [] [0]) = Inr [True]"
  by (simp add: SlidingWindowLimiter_is_allowed_def SlidingWindowLimiter_init_def sw_getitem_def
        TokenBucketLimiter_is_allowed_def
        TokenBucketLimiter_refill_def tb_getitem_def py_truediv_def Let_def
        tb_default_bucket_def burst_or_max_def policy_def py_int_def)


text \<open>Witness: the empty \<open>client_id\<close> against fresh limiters of capacity 5 per 10 seconds.\<close>

theorem decide_accepts_every_client_id_witness:
  "(\<exists>r s. TokenBucketLimiter_is_allowed
            \<lparr>tb_config = policy 5 10 TOKEN_BUCKET, tb_buckets = Map.empty,
             tb_refill_rate = 1 / 2\<rparr> [] 0 0 0 = Inr (r, s))
   \<and> (\<exists>r s. SlidingWindowLimiter_is_allowed
            \<lparr>sw_config = policy 5 10 TOKEN_BUCKET, sw_windows = Map.empty\<rparr> [] 0 = Inr (r, s))
   \<and> (\<exists>r s. LeakyBucketLimiter_is_allowed
            \<lparr>lb_config = policy 5 10 TOKEN_BUCKET, lb_buckets = Map.empty,
             leak_rate = 1 / 2\<rparr> [] 0 0 0 0 = Inr (r, s))
   \<and> (\<exists>r s. FixedWindowLimiter_is_allowed
            \<lparr>fw_config = policy 5 10 TOKEN_BUCKET, fw_windows = Map.empty\<rparr> [] 0 0 = (r, s))"
proof -
  let ?c = "policy 5 10 TOKEN_BUCKET"
  have h1: "0 < max_requests ?c" and h2: "0 < time_window ?c"
    by (simp_all add: policy_def)
  have h3: "tb_built ?c \<lparr>tb_config = ?c, tb_buckets = Map.empty, tb_refill_rate = 1 / 2\<rparr>"
    by (simp add: tb_built_def TokenBucketLimiter_init_def py_truediv_def policy_def)
  have h4: "sw_built ?c \<lparr>sw_config = ?c, sw_windows = Map.empty\<rparr>"
    by (simp add: sw_built_def SlidingWindowLimiter_init_def)
  have h5: "lb_built ?c \<lparr>lb_config = ?c, lb_buckets = Map.empty, leak_rate = 1 / 2\<rparr>"
    by (simp add: lb_built_def LeakyBucketLimiter_init_def py_truediv_def policy_def)
  have h6: "fw_built ?c \<lparr>fw_config = ?c, fw_windows = Map.empty\<rparr>"
    by (simp add: fw_built_def FixedWindowLimiter_init_def)
  show ?thesis
    by (rule decide_accepts_every_client_id [OF h1 h2 h3 h4 h5 h6])
qed

section \<open>Totality of the local limiters\<close>

lemma sw_built_iff: "sw_built config self \<longleftrightarrow> sw_config self = config"
  by (simp add: sw_built_def)

lemma fw_built_iff: "fw_built config self \<longleftrightarrow> fw_config self = config"
  by (simp add: fw_built_def)

lemma tb_ops_total:
  assumes "0 < max_requests config" "0 < time_window config" "tb_built config self"
  shows "(\<exists>r s. TokenBucketLimiter_is_allowed self c t1 t2 t3 = Inr (r, s) \<and> tb_built config s)
       \<and> tb_built config (TokenBucketLimiter_reset self c t1)
       \<and> tb_built config (snd (TokenBucketLimiter_get_status self c t1 t2))"
proof -
  obtain r s where "TokenBucketLimiter_is_allowed self c t1 t2 t3 = Inr (r, s)"
     "tb_config s = tb_config self" "tb_refill_rate s = tb_refill_rate self"
    using tb_is_allowed_total [OF tb_built_rate(1) [OF assms]] by blast
  then show ?thesis
    using assms(3) by (auto intro: tb_built_cong)
qed

lemma lb_ops_total:
  assumes "0 < max_requests config" "0 < time_window config" "lb_built config self"
  shows "(\<exists>r s. LeakyBucketLimiter_is_allowed self c t1 t2 t3 t4 = Inr (r, s) \<and> lb_built config s)
       \<and> lb_built config (LeakyBucketLimiter_reset self c t1)
       \<and> lb_built config (snd (LeakyBucketLimiter_get_status self c t1 t2))"
proof -
  obtain r s where "LeakyBucketLimiter_is_allowed self c t1 t2 t3 t4 = Inr (r, s)"
     "lb_config s = lb_config self" "leak_rate s = leak_rate self"
    using lb_is_allowed_total [OF lb_built_rate(1) [OF assms]] by blast
  then show ?thesis
    using assms(3) by (auto intro: lb_built_cong)
qed

lemma sw_ops_total:
  assumes "0 < max_requests config" "sw_built config self"
  shows "(\<exists>r s. SlidingWindowLimiter_is_allowed self c now = Inr (r, s) \<and> sw_built config s)
       \<and> sw_built config (SlidingWindowLimiter_reset self c)
       \<and> sw_built config (snd (SlidingWindowLimiter_get_status self c now))"
proof -
  have "0 < max_requests (sw_config self)" using assms by (simp add: sw_built_iff)
  from sw_is_allowed_total [OF this, of c now] show ?thesis
    using assms(2) by (auto simp: sw_built_iff)
qed

lemma fw_ops_total:
  assumes "fw_built config self"
  shows "fw_built config (snd (FixedWindowLimiter_is_allowed self c now t))
       \<and> fw_built config (FixedWindowLimiter_reset self c t)
       \<and> fw_built config (snd (FixedWindowLimiter_get_status self c now t))"
  using assms by (simp add: fw_built_iff)

lemma inits_total:
  assumes "0 < time_window config"
  shows "(\<exists>tb. TokenBucketLimiter_init config = Inr tb \<and> tb_built config tb)"
    and "(\<exists>lb. LeakyBucketLimiter_init config = Inr lb \<and> lb_built config lb)"
    and "sw_built config (SlidingWindowLimiter_init config)"
    and "fw_built config (FixedWindowLimiter_init config)"
proof -
  have nz: "time_window config \<noteq> 0" using assms by simp
  show "\<exists>tb. TokenBucketLimiter_init config = Inr tb \<and> tb_built config tb"
    using tb_init_total [OF nz] by (auto simp: tb_built_def)
  show "\<exists>lb. LeakyBucketLimiter_init config = Inr lb \<and> lb_built config lb"
    using lb_init_total [OF nz] by (auto simp: lb_built_def)
  show "sw_built config (SlidingWindowLimiter_init config)" by (simp add: sw_built_def)
  show "fw_built config (FixedWindowLimiter_init config)" by (simp add: fw_built_def)
qed

text \<open>
  C2. For every policy with positive capacity and positive window the constructors of the
  four local limiters succeed, and on every limiter built from the policy (whatever its
  per-client records) \<open>is_allowed\<close> returns a response: neither the \<open>IndexError\<close> of
  \<open>window[0]\<close> on an empty log nor the \<open>ZeroDivisionError\<close> of \<open>1 / rate\<close> occurs.
  \<open>reset\<close> and \<open>get_status\<close> contain no raising operation, and all three operations
  leave a limiter built from the policy, so any sequence of them stays total. The loops
  (eviction, leaking) are structurally recursive, hence terminate.
\<close>

theorem local_operations_total:
  assumes "0 < max_requests config" "0 < time_window config"
  shows "(\<exists>tb. TokenBucketLimiter_init config = Inr tb \<and> tb_built config tb)
       \<and> (\<exists>lb. LeakyBucketLimiter_init config = Inr lb \<and> lb_built config lb)
       \<and> sw_built config (SlidingWindowLimiter_init config)
       \<and> fw_built config (FixedWindowLimiter_init config)
       \<and> (\<forall>self c t1 t2 t3. tb_built config self \<longrightarrow>
            (\<exists>r s. TokenBucketLimiter_is_allowed self c t1 t2 t3 = Inr (r, s) \<and> tb_built config s)
            \<and> tb_built config (TokenBucketLimiter_reset self c t1)
            \<and> tb_built config (snd (TokenBucketLimiter_get_status self c t1 t2)))
       \<and> (\<forall>self c now. sw_built config self \<longrightarrow>
            (\<exists>r s. SlidingWindowLimiter_is_allowed self c now = Inr (r, s) \<and> sw_built config s)
            \<and> sw_built config (SlidingWindowLimiter_reset self c)
            \<and> sw_built config (snd (SlidingWindowLimiter_get_status self c now)))
       \<and> (\<forall>self c t1 t2 t3 t4. lb_built config self \<longrightarrow>
            (\<exists>r s. LeakyBucketLimiter_is_allowed self c t1 t2 t3 t4 = Inr (r, s) \<and> lb_built config s)
            \<and> lb_built config (LeakyBucketLimiter_reset self c t1)
            \<and> lb_built config (snd (LeakyBucketLimiter_get_status self c t1 t2)))
       \<and> (\<forall>self c now t. fw_built config self \<longrightarrow>
            fw_built config (snd (FixedWindowLimiter_is_allowed self c now t))
            \<and> fw_built config (FixedWindowLimiter_reset self c t)
            \<and> fw_built config (snd (FixedWindowLimiter_get_status self c now t)))"
  using inits_total [OF assms(2)] tb_ops_total [OF assms] sw_ops_total [OF assms(1)]
        lb_ops_total [OF assms] fw_ops_total
  by (intro conjI allI impI) blast+

text \<open>
  Witness: capacity 1 per 10 seconds; the sliding-window call is the rejection branch
  with the log \<open>[0]\<close> at clock 1.
\<close>

theorem local_operations_total_witness:
  "0 < max_requests (policy 1 10 SLIDING_WINDOW) \<and> 0 < time_window (policy 1 10 SLIDING_WINDOW)
   \<and> (\<exists>r s. SlidingWindowLimiter_is_allowed
              \<lparr>sw_config = policy 1 10 SLIDING_WINDOW, sw_windows = [''c1'' \<mapsto> [0]]\<rparr>
              ''c1'' 1 = Inr (r, s))
   \<and> (\<exists>tb. TokenBucketLimiter_init (policy 1 10 SLIDING_WINDOW) = Inr tb)"
proof -
  let ?c = "policy 1 10 SLIDING_WINDOW"
  let ?s = "\<lparr>sw_config = ?c, sw_windows = [''c1'' \<mapsto> [0]]\<rparr>"
  have h1: "0 < max_requests ?c" and h2: "0 < time_window ?c"
    by (simp_all add: policy_def)
  have b: "sw_built ?c ?s" by (simp add: sw_built_def SlidingWindowLimiter_init_def)
  from local_operations_total [OF h1 h2] b
  have "\<exists>r s. SlidingWindowLimiter_is_allowed ?s ''c1'' 1 = Inr (r, s) \<and> sw_built ?c s"
    by blast
  moreover from local_operations_total [OF h1 h2]
  have "\<exists>tb. TokenBucketLimiter_init ?c = Inr tb" by blast
  ultimately show ?thesis using h1 h2 by blast
qed

section \<open>SlidingWindow: eviction, retry hint\<close>

lemma sw_evict_dropWhile: "sw_evict ws xs = dropWhile (\<lambda>t. t < ws) xs"
  by (induction xs) auto

lemma sw_evict_front: "sw_evict ws xs = t # ts \<Longrightarrow> ws \<le> t"
  by (induction xs) (auto split: if_splits)

lemma sw_evict_sorted_filter:
  "sorted xs \<Longrightarrow> sw_evict ws xs = filter (\<lambda>t. ws \<le> t) xs"
proof (induction xs)
  case Nil
  then show ?case by simp
next
  case (Cons x xs)
  show ?case
  proof (cases "x < ws")
    case True
    with Cons show ?thesis by simp
  next
    case False
    with Cons.prems have "\<forall>t\<in>set xs. ws \<le> t" by auto
    then have "filter (\<lambda>t. ws \<le> t) xs = xs" by (simp add: filter_id_conv)
    with False show ?thesis by simp
  qed
qed

text \<open>
  C3 (as amended). On every rejected SlidingWindow \<open>is_allowed\<close> the log is non-empty
  after eviction and \<open>retry_after = floor(log[0] + window - now) + 1\<close>, which is at
  least 1. (It equals \<open>ceil(log[0] + window - now)\<close> unless that difference is a whole
  number, where it is one more.) Nothing is stated about \<open>reset_time\<close>.
\<close>

theorem sw_rejection_retry_after:
  assumes "SlidingWindowLimiter_is_allowed self client_id now = Inr (r, s)"
      and "\<not> allowed r"
  shows "sw_evict (now - of_int (time_window (sw_config self))) (sw_getitem self client_id) \<noteq> []
       \<and> retry_after r =
           Some (\<lfloor>hd (sw_evict (now - of_int (time_window (sw_config self)))
                          (sw_getitem self client_id))
                   + of_int (time_window (sw_config self)) - now\<rfloor> + 1)
       \<and> (\<forall>k. retry_after r = Some k \<longrightarrow> 1 \<le> k)"
proof -
  let ?W = "real_of_int (time_window (sw_config self))"
  let ?log = "sw_evict (now - ?W) (sw_getitem self client_id)"
  from assms obtain w0 ws where log: "?log = w0 # ws"
    and ra: "retry_after r = Some (py_int (w0 - (now - ?W) + 1))"
    by (auto simp: SlidingWindowLimiter_is_allowed_def Let_def split: if_splits list.splits)
  have ge: "now - ?W \<le> w0" using sw_evict_front [OF log] .
  have eq: "w0 - (now - ?W) + 1 = (w0 + ?W - now) + 1" by simp
  have nn: "0 \<le> w0 + ?W - now" using ge by simp
  have "py_int (w0 - (now - ?W) + 1) = \<lfloor>w0 + ?W - now\<rfloor> + 1"
    unfolding eq py_int_def using nn by simp
  moreover have "0 \<le> \<lfloor>w0 + ?W - now\<rfloor>" using ge by simp
  ultimately show ?thesis using log ra by simp
qed

text \<open>Witness: capacity 1 per 10 seconds, the log \<open>[0]\<close>, the clock at 5/2.\<close>

theorem sw_rejection_retry_after_witness:
  "SlidingWindowLimiter_is_allowed
     \<lparr>sw_config = policy 1 10 SLIDING_WINDOW, sw_windows = [''c1'' \<mapsto> [0]]\<rparr> ''c1'' (5/2)
   = Inr (\<lparr>allowed = False, remaining = 0, reset_time = 12, retry_after = Some 8,
           requests_in_window = 1\<rparr>,
          \<lparr>sw_config = policy 1 10 SLIDING_WINDOW, sw_windows = [''c1'' \<mapsto> [0]]\<rparr>)
   \<and> retry_after \<lparr>allowed = False, remaining = 0, reset_time = 12, retry_after = Some 8,
           requests_in_window = 1\<rparr> = Some (\<lfloor>(0::real) + 10 - 5/2\<rfloor> + 1)"
proof -
  let ?s = "\<lparr>sw_config = policy 1 10 SLIDING_WINDOW, sw_windows = [''c1'' \<mapsto> [0]]\<rparr>"
  let ?r = "\<lparr>allowed = False, remaining = 0, reset_time = 12, retry_after = Some 8,
           requests_in_window = 1\<rparr>"
  have h1: "SlidingWindowLimiter_is_allowed ?s ''c1'' (5/2) = Inr (?r, ?s)"
    by (simp add: SlidingWindowLimiter_is_allowed_def sw_getitem_def Let_def policy_def py_int_def)
  have h2: "\<not> allowed ?r" by simp
  show ?thesis
    using h1 sw_rejection_retry_after [OF h1 h2]
    by (simp add: sw_getitem_def policy_def)
qed

text \<open>
  The claim as stated fails: with capacity 1 per 10 seconds, the second call at clock 0
  is rejected with \<open>retry_after = 11\<close>, while \<open>ceil(0 + 10 - 0) = 10\<close>; and the call at
  clock 5 carries \<open>reset_time = 15\<close>, not \<open>log[0] + window = 10\<close>.
\<close>

theorem sw_retry_after_ceil_counterexample:
  "map_sum id (map (\<lambda>r. (allowed r, retry_after r, reset_time r)) \<circ> fst)
       (SlidingWindowLimiter_run (SlidingWindowLimiter_init (policy 1 10 SLIDING_WINDOW))
          [(''c1'', 0), (''c1'', 0), (''c1'', 5)])
     = Inr [(True, None, 10), (False, Some 11, 10), (False, Some 6, 15)]
   \<and> max 1 \<lceil>(0::real) + 10 - 0\<rceil> = 10"
  by (simp add: SlidingWindowLimiter_is_allowed_def SlidingWindowLimiter_init_def sw_getitem_def
        Let_def policy_def py_int_def)

text \<open>
  C8 (as amended). When the client's log is in ascending order (as it is when the clock
  never goes back), eviction keeps exactly the timestamps \<open>t\<close> with \<open>now - window \<le> t\<close>:
  a timestamp equal to the cutoff is kept, not removed. The request is admitted if and
  only if the number of kept timestamps is strictly less than \<open>max_requests\<close>.
\<close>

theorem sw_eviction_boundary:
  assumes "sorted (sw_getitem self client_id)"
  shows "sw_evict (now - of_int (time_window (sw_config self))) (sw_getitem self client_id) =
           filter (\<lambda>t. now - of_int (time_window (sw_config self)) \<le> t) (sw_getitem self client_id)
       \<and> ((\<exists>r s. SlidingWindowLimiter_is_allowed self client_id now = Inr (r, s) \<and> allowed r)
            \<longleftrightarrow> int (length (filter (\<lambda>t. now - of_int (time_window (sw_config self)) \<le> t)
                                 (sw_getitem self client_id))) < max_requests (sw_config self))"
proof -
  let ?ws = "now - real_of_int (time_window (sw_config self))"
  have e: "sw_evict ?ws (sw_getitem self client_id) = filter (\<lambda>t. ?ws \<le> t) (sw_getitem self client_id)"
    by (rule sw_evict_sorted_filter [OF assms])
  have "(\<exists>r s. SlidingWindowLimiter_is_allowed self client_id now = Inr (r, s) \<and> allowed r)
          \<longleftrightarrow> int (length (sw_evict ?ws (sw_getitem self client_id))) < max_requests (sw_config self)"
    by (auto simp: SlidingWindowLimiter_is_allowed_def Let_def split: list.splits)
  with e show ?thesis by simp
qed

text \<open>
  The claim as stated fails: with capacity 1 per 10 seconds and an admission at clock 0,
  the call at clock 10 is rejected, although no timestamp lies in the interval (0, 10].
\<close>

theorem sw_cutoff_timestamp_kept_counterexample:
  "map_sum id (map allowed \<circ> fst)
       (SlidingWindowLimiter_run (SlidingWindowLimiter_init (policy 1 10 SLIDING_WINDOW))
          [(''c1'', 0), (''c1'', 10)])
     = Inr [True, False]
  \<and> filter (\<lambda>t. (10::real) - 10 < t \<and> t \<le> 10) [0] = []"
  by (simp add: SlidingWindowLimiter_is_allowed_def SlidingWindowLimiter_init_def sw_getitem_def
        Let_def policy_def py_int_def)

text \<open>Witness: the log \<open>[0]\<close> at clock 10 with capacity 1 per 10 seconds.\<close>

theorem sw_eviction_boundary_witness:
  "sorted (sw_getitem \<lparr>sw_config = policy 1 10 SLIDING_WINDOW, sw_windows = [''c1'' \<mapsto> [0]]\<rparr> ''c1'')
   \<and> sw_evict (10 - 10) [0] = [0::real]
   \<and> \<not> (\<exists>r s. SlidingWindowLimiter_is_allowed
              \<lparr>sw_config = policy 1 10 SLIDING_WINDOW, sw_windows = [''c1'' \<mapsto> [0]]\<rparr>
              ''c1'' 10 = Inr (r, s) \<and> allowed r)"
proof -
  let ?s = "\<lparr>sw_config = policy 1 10 SLIDING_WINDOW, sw_windows = [''c1'' \<mapsto> [0]]\<rparr>"
  have h: "sorted (sw_getitem ?s ''c1'')" by (simp add: sw_getitem_def)
  show ?thesis
    using h sw_eviction_boundary [OF h, of 10]
    by (simp add: sw_getitem_def policy_def)
qed

section \<open>Inspecting before deciding\<close>


lemma tb_refill_twice:
  "TokenBucketLimiter_refill (snd (TokenBucketLimiter_refill self c now now)) c now now =
   TokenBucketLimiter_refill self c now now"
  by (cases "tb_buckets self c")
     (simp_all add: TokenBucketLimiter_refill_def tb_getitem_def Let_def)

lemma tb_getitem_after_refill:
  "tb_getitem (snd (TokenBucketLimiter_refill self c t now)) c t' =
     (the (tb_buckets (snd (TokenBucketLimiter_refill self c t now)) c),
      snd (TokenBucketLimiter_refill self c t now))"
  by (cases "tb_buckets self c")
     (simp_all add: TokenBucketLimiter_refill_def tb_getitem_def Let_def)

lemma tb_get_status_state:
  "snd (TokenBucketLimiter_get_status self c t now) = snd (TokenBucketLimiter_refill self c t now)"
  by (simp add: TokenBucketLimiter_get_status_def Let_def tb_getitem_after_refill)

lemma tb_inspect_then_decide:
  "TokenBucketLimiter_is_allowed (snd (TokenBucketLimiter_get_status self c now now)) c now now now =
   TokenBucketLimiter_is_allowed self c now now now"
  by (simp add: tb_get_status_state TokenBucketLimiter_is_allowed_def tb_refill_twice)

lemma lb_leak_twice:
  "LeakyBucketLimiter_leak (snd (LeakyBucketLimiter_leak self c now now)) c now now =
   LeakyBucketLimiter_leak self c now now"
  by (cases "lb_buckets self c")
     (simp_all add: LeakyBucketLimiter_leak_def lb_getitem_def Let_def)

lemma lb_getitem_after_leak:
  "lb_getitem (snd (LeakyBucketLimiter_leak self c t now)) c t' =
     (the (lb_buckets (snd (LeakyBucketLimiter_leak self c t now)) c),
      snd (LeakyBucketLimiter_leak self c t now))"
  by (cases "lb_buckets self c")
     (simp_all add: LeakyBucketLimiter_leak_def lb_getitem_def Let_def)

lemma lb_get_status_state:
  "snd (LeakyBucketLimiter_get_status self c t now) = snd (LeakyBucketLimiter_leak self c t now)"
proof -
  obtain n s1 where l: "LeakyBucketLimiter_leak self c t now = (n, s1)"
    by (cases "LeakyBucketLimiter_leak self c t now")
  have "snd (lb_getitem s1 c now) = s1"
    using lb_getitem_after_leak [of self c t now now] l by simp
  then show ?thesis
    by (auto simp: LeakyBucketLimiter_get_status_def l split: prod.splits)
qed

lemma lb_inspect_then_decide:
  "LeakyBucketLimiter_is_allowed (snd (LeakyBucketLimiter_get_status self c now now)) c now now now now =
   LeakyBucketLimiter_is_allowed self c now now now now"
  by (simp add: lb_get_status_state LeakyBucketLimiter_is_allowed_def lb_leak_twice)

lemma fw_roll_twice: "fw_roll config now (fw_roll config now w) = fw_roll config now w"
  by (simp add: fw_roll_def)

lemma fw_inspect_then_decide:
  "FixedWindowLimiter_is_allowed (snd (FixedWindowLimiter_get_status self c now now)) c now now =
   FixedWindowLimiter_is_allowed self c now now"
  by (simp add: FixedWindowLimiter_is_allowed_def FixedWindowLimiter_get_status_def
        fw_getitem_def fw_roll_twice Let_def)

lemma sw_inspect_then_decide:
  "SlidingWindowLimiter_is_allowed (snd (SlidingWindowLimiter_get_status self c now)) c now =
   SlidingWindowLimiter_is_allowed self c now"
  by (simp add: SlidingWindowLimiter_is_allowed_def SlidingWindowLimiter_get_status_def
        sw_getitem_def Let_def split: list.splits)

text \<open>
  \<open>get_status\<close> is not read-only: here it refills the bucket and advances \<open>last_refill\<close>.
\<close>

lemma tb_get_status_mutates:
  "tb_buckets (snd (TokenBucketLimiter_get_status
       \<lparr>tb_config = policy 2 1 TOKEN_BUCKET,
        tb_buckets = [''c1'' \<mapsto> \<lparr>tokens = 0, last_refill = 0, bucket_burst_size = 2\<rparr>],
        tb_refill_rate = 2\<rparr> ''c1'' 1 1)) ''c1''
   = Some \<lparr>tokens = 2, last_refill = 1, bucket_burst_size = 2\<rparr>"
  by (simp add: tb_get_status_state TokenBucketLimiter_refill_def tb_getitem_def)

text \<open>
  C10. With the clock fixed at one reading \<open>now\<close>, \<open>get_status\<close> followed by \<open>is_allowed\<close>
  returns what \<open>is_allowed\<close> alone returns, for each of the four local limiters: the same
  response (or exception) and also the same limiter state.
\<close>

theorem inspect_then_decide:
  "TokenBucketLimiter_is_allowed (snd (TokenBucketLimiter_get_status tb client_id now now))
       client_id now now now =
     TokenBucketLimiter_is_allowed tb client_id now now now
   \<and> SlidingWindowLimiter_is_allowed (snd (SlidingWindowLimiter_get_status sw client_id now))
       client_id now =
     SlidingWindowLimiter_is_allowed sw client_id now
   \<and> LeakyBucketLimiter_is_allowed (snd (LeakyBucketLimiter_get_status lb client_id now now))
       client_id now now now now =
     LeakyBucketLimiter_is_allowed lb client_id now now now now
   \<and> FixedWindowLimiter_is_allowed (snd (FixedWindowLimiter_get_status fw client_id now now))
       client_id now now =
     FixedWindowLimiter_is_allowed fw client_id now now"
  by (simp only: tb_inspect_then_decide sw_inspect_then_decide lb_inspect_then_decide
        fw_inspect_then_decide simp_thms)

section \<open>Reset time of a rejection\<close>


lemma py_int_between:
  assumes "0 \<le> x" "x \<le> of_int w"
  shows "0 \<le> py_int x" "py_int x \<le> w"
  using assms by (simp_all add: py_int_def floor_le_iff)

lemma inverse_rate_bounds:
  fixes cap win :: int
  assumes "0 < cap" "0 < win"
  shows "0 \<le> 1 / (real_of_int cap / real_of_int win)"
    and "1 / (real_of_int cap / real_of_int win) \<le> real_of_int win"
proof -
  have c: "1 \<le> real_of_int cap" using assms(1) by simp
  have w: "0 < real_of_int win" using assms(2) by simp
  show "0 \<le> 1 / (real_of_int cap / real_of_int win)" using c w by simp
  have "real_of_int win / real_of_int cap \<le> real_of_int win / 1"
    using c w by (intro divide_left_mono) simp_all
  then show "1 / (real_of_int cap / real_of_int win) \<le> real_of_int win" by simp
qed

lemma reset_after_retry_bounds:
  assumes "0 \<le> ra" "ra \<le> win"
  shows "t - 1 < real_of_int (py_int (t + real_of_int ra))"
    and "real_of_int (py_int (t + real_of_int ra)) - t < real_of_int win + 1"
  using py_int_lower [of "t + real_of_int ra"] py_int_upper [of "t + real_of_int ra"] assms
  by simp_all

lemma tb_built_default_rate:
  assumes "tb_built config self" "refill_rate config = None"
  shows "tb_refill_rate self = real_of_int (max_requests config) / real_of_int (time_window config)"
  using assms
  by (auto simp: tb_built_def TokenBucketLimiter_init_def py_truediv_def Let_def
      split: sum.splits if_splits)

lemma tb_rejected_reset_time:
  assumes "TokenBucketLimiter_is_allowed self c t1 t2 t3 = Inr (r, s)" "\<not> allowed r"
  shows "reset_time r = py_int (t3 + real_of_int (py_int (1 / tb_refill_rate self)))"
proof -
  obtain b s2 where g: "tb_getitem (snd (TokenBucketLimiter_refill self c t1 t2)) c t3 = (b, s2)"
    by (cases "tb_getitem (snd (TokenBucketLimiter_refill self c t1 t2)) c t3")
  have a: "tb_refill_rate s2 = tb_refill_rate self"
    using tb_getitem_attrs [of "snd (TokenBucketLimiter_refill self c t1 t2)" c t3] g by simp
  show ?thesis
    using assms a g
    by (auto simp: TokenBucketLimiter_is_allowed_def py_truediv_def Let_def split: if_splits)
qed

lemma tb_rejection_reset_bounds:
  assumes "0 < max_requests config" "0 < time_window config"
      and "tb_built config self" "refill_rate config = None"
      and "TokenBucketLimiter_is_allowed self c t1 t2 now = Inr (r, s)" "\<not> allowed r"
  shows "now - 1 < real_of_int (reset_time r)
       \<and> real_of_int (reset_time r) - now < real_of_int (time_window config) + 1"
proof -
  let ?q = "1 / (real_of_int (max_requests config) / real_of_int (time_window config))"
  have rt: "reset_time r = py_int (now + real_of_int (py_int ?q))"
    using tb_rejected_reset_time [OF assms(5,6)] tb_built_default_rate [OF assms(3,4)] by simp
  have "0 \<le> py_int ?q" "py_int ?q \<le> time_window config"
    using py_int_between [OF inverse_rate_bounds [OF assms(1,2)]] by simp_all
  from reset_after_retry_bounds [OF this, of now] rt show ?thesis by simp
qed

lemma lb_rejected_reset_time:
  assumes "LeakyBucketLimiter_is_allowed self c t1 t2 t3 t4 = Inr (r, s)" "\<not> allowed r"
  shows "reset_time r = py_int (t4 + real_of_int (py_int (1 / leak_rate self)))"
proof -
  obtain n s1 where l: "LeakyBucketLimiter_leak self c t1 t2 = (n, s1)"
    by (cases "LeakyBucketLimiter_leak self c t1 t2")
  obtain b s2 where g: "lb_getitem s1 c t3 = (b, s2)"
    by (cases "lb_getitem s1 c t3")
  have a1: "leak_rate s1 = leak_rate self"
    using lb_leak_attrs [of self c t1 t2] l by simp
  have a: "leak_rate s2 = leak_rate self"
    using lb_getitem_attrs [of s1 c t3] g a1 by simp
  show ?thesis
    using assms a g l
    by (auto simp: LeakyBucketLimiter_is_allowed_def py_truediv_def Let_def split: if_splits)
qed

lemma lb_rejection_reset_bounds:
  assumes "0 < max_requests config" "0 < time_window config"
      and "lb_built config self"
      and "LeakyBucketLimiter_is_allowed self c t1 t2 t3 now = Inr (r, s)" "\<not> allowed r"
  shows "now - 1 < real_of_int (reset_time r)
       \<and> real_of_int (reset_time r) - now < real_of_int (time_window config) + 1"
proof -
  let ?q = "1 / (real_of_int (max_requests config) / real_of_int (time_window config))"
  have rt: "reset_time r = py_int (now + real_of_int (py_int ?q))"
    using lb_rejected_reset_time [OF assms(4,5)] lb_built_rate(3) [OF assms(1,2,3)] by simp
  have "0 \<le> py_int ?q" "py_int ?q \<le> time_window config"
    using py_int_between [OF inverse_rate_bounds [OF assms(1,2)]] by simp_all
  from reset_after_retry_bounds [OF this, of now] rt show ?thesis by simp
qed

lemma sw_rejection_reset_bounds:
  assumes "0 < time_window config" "sw_built config self"
      and "SlidingWindowLimiter_is_allowed self c now = Inr (r, s)"
  shows "now \<le> real_of_int (reset_time r)
       \<and> real_of_int (reset_time r) - now < real_of_int (time_window config) + 1"
proof -
  have cfg: "sw_config self = config" using assms(2) by (simp add: sw_built_def SlidingWindowLimiter_init_def)
  have rt: "reset_time r = py_int (real_of_int (time_window config) + now)"
    using assms(3) cfg
    by (auto simp: SlidingWindowLimiter_is_allowed_def Let_def add.commute
        split: if_splits list.splits)
  have "1 \<le> real_of_int (time_window config)" using assms(1) by simp
  then show ?thesis
    using py_int_lower [of "real_of_int (time_window config) + now"]
          py_int_upper [of "real_of_int (time_window config) + now"] rt
    by simp
qed

lemma fw_rejection_reset_bounds:
  assumes "0 < max_requests config" "fw_built config self"
      and "FixedWindowLimiter_is_allowed self c now t = (r, s)" "\<not> allowed r"
      and "\<forall>w. fw_windows self c = Some w \<longrightarrow> window_start w \<le> now"
  shows "now - 1 < real_of_int (reset_time r)
       \<and> real_of_int (reset_time r) - now < real_of_int (time_window config) + 1"
proof -
  let ?W = "real_of_int (time_window config)"
  have cfg: "fw_config self = config" using assms(2) by (simp add: fw_built_def FixedWindowLimiter_init_def)
  let ?g = "fw_getitem self c t"
  let ?rolled = "fw_roll config now ?g"
  have rej: "\<not> count ?rolled < max_requests config" and rt: "reset_time r = py_int (window_start ?rolled + ?W)"
    using assms(3,4) cfg
    by (auto simp: FixedWindowLimiter_is_allowed_def Let_def split: if_splits)
  have noroll: "\<not> now - window_start ?g \<ge> ?W"
    using rej assms(1) by (auto simp: fw_roll_def split: if_splits)
  then have same: "?rolled = ?g" by (simp add: fw_roll_def)
  have rej0: "\<not> count ?g < max_requests config"
    using rej same by simp
  have "fw_windows self c \<noteq> None"
    using rej0 assms(1) by (cases "fw_windows self c") (auto simp: fw_getitem_def fw_default_window_def)
  then have le: "window_start ?g \<le> now"
    using assms(5) by (auto simp: fw_getitem_def)
  show ?thesis
    using py_int_lower [of "window_start ?g + ?W"] py_int_upper [of "window_start ?g + ?W"]
          rt same noroll le
    by simp
qed

text \<open>
  C9 (as amended). For every limiter built from a policy with positive capacity and
  window, and every rejected \<open>is_allowed\<close>, \<open>reset_time\<close> is an integer with
  \<open>now - 1 < reset_time\<close> and \<open>reset_time - now < window + 1\<close>, where \<open>now\<close> is the clock
  reading from which \<open>reset_time\<close> is computed: for TokenBucket with the default refill
  rate (no explicit \<open>refill_rate\<close>), for LeakyBucket, and for FixedWindow when the stored
  window does not start after \<open>now\<close>. For SlidingWindow even \<open>now \<le> reset_time\<close>.
  (\<open>reset_time\<close> is a truncation to whole seconds, so it can be below a fractional \<open>now\<close>.)
\<close>

theorem rejection_reset_time_bounds:
  assumes "0 < max_requests config" "0 < time_window config"
  shows "(\<forall>self c t1 t2 now r s.
            tb_built config self \<and> refill_rate config = None
            \<and> TokenBucketLimiter_is_allowed self c t1 t2 now = Inr (r, s) \<and> \<not> allowed r
            \<longrightarrow> now - 1 < real_of_int (reset_time r)
              \<and> real_of_int (reset_time r) - now < real_of_int (time_window config) + 1)
       \<and> (\<forall>self c now r s.
            sw_built config self
            \<and> SlidingWindowLimiter_is_allowed self c now = Inr (r, s) \<and> \<not> allowed r
            \<longrightarrow> now \<le> real_of_int (reset_time r)
              \<and> real_of_int (reset_time r) - now < real_of_int (time_window config) + 1)
       \<and> (\<forall>self c t1 t2 t3 now r s.
            lb_built config self
            \<and> LeakyBucketLimiter_is_allowed self c t1 t2 t3 now = Inr (r, s) \<and> \<not> allowed r
            \<longrightarrow> now - 1 < real_of_int (reset_time r)
              \<and> real_of_int (reset_time r) - now < real_of_int (time_window config) + 1)
       \<and> (\<forall>self c now t r s.
            fw_built config self
            \<and> FixedWindowLimiter_is_allowed self c now t = (r, s) \<and> \<not> allowed r
            \<and> (\<forall>w. fw_windows self c = Some w \<longrightarrow> window_start w \<le> now)
            \<longrightarrow> now - 1 < real_of_int (reset_time r)
              \<and> real_of_int (reset_time r) - now < real_of_int (time_window config) + 1)"
proof (intro conjI allI impI)
  fix self c t1 t2 now r s
  assume "tb_built config self \<and> refill_rate config = None
            \<and> TokenBucketLimiter_is_allowed self c t1 t2 now = Inr (r, s) \<and> \<not> allowed r"
  then have h: "now - 1 < real_of_int (reset_time r)
       \<and> real_of_int (reset_time r) - now < real_of_int (time_window config) + 1"
    using tb_rejection_reset_bounds [OF assms] by blast
  show "now - 1 < real_of_int (reset_time r)" using h by simp
  show "real_of_int (reset_time r) - now < real_of_int (time_window config) + 1" using h by simp
next
  fix self c now r s
  assume "sw_built config self
            \<and> SlidingWindowLimiter_is_allowed self c now = Inr (r, s) \<and> \<not> allowed r"
  then have h: "now \<le> real_of_int (reset_time r)
       \<and> real_of_int (reset_time r) - now < real_of_int (time_window config) + 1"
    using sw_rejection_reset_bounds [OF assms(2)] by blast
  show "now \<le> real_of_int (reset_time r)" using h by simp
  show "real_of_int (reset_time r) - now < real_of_int (time_window config) + 1" using h by simp
next
  fix self c t1 t2 t3 now r s
  assume "lb_built config self
            \<and> LeakyBucketLimiter_is_allowed self c t1 t2 t3 now = Inr (r, s) \<and> \<not> allowed r"
  then have h: "now - 1 < real_of_int (reset_time r)
       \<and> real_of_int (reset_time r) - now < real_of_int (time_window config) + 1"
    using lb_rejection_reset_bounds [OF assms] by blast
  show "now - 1 < real_of_int (reset_time r)" using h by simp
  show "real_of_int (reset_time r) - now < real_of_int (time_window config) + 1" using h by simp
next
  fix self c now t r s
  assume "fw_built config self
            \<and> FixedWindowLimiter_is_allowed self c now t = (r, s) \<and> \<not> allowed r
            \<and> (\<forall>w. fw_windows self c = Some w \<longrightarrow> window_start w \<le> now)"
  then have h: "now - 1 < real_of_int (reset_time r)
       \<and> real_of_int (reset_time r) - now < real_of_int (time_window config) + 1"
    using fw_rejection_reset_bounds [OF assms(1)] by blast
  show "now - 1 < real_of_int (reset_time r)" using h by simp
  show "real_of_int (reset_time r) - now < real_of_int (time_window config) + 1" using h by simp
qed


text \<open>Witness: one rejected call of each limiter.\<close>

theorem rejection_reset_time_bounds_witness:
  "TokenBucketLimiter_is_allowed
      \<lparr>tb_config = policy 2 1 TOKEN_BUCKET,
       tb_buckets = [''c1'' \<mapsto> \<lparr>tokens = 0, last_refill = 1/2, bucket_burst_size = 2\<rparr>],
       tb_refill_rate = 2\<rparr> ''c1'' (1/2) (1/2) (1/2)
     = Inr (\<lparr>allowed = False, remaining = 0, reset_time = 0, retry_after = Some 0,
             requests_in_window = 2\<rparr>,
            \<lparr>tb_config = policy 2 1 TOKEN_BUCKET,
             tb_buckets = [''c1'' \<mapsto> \<lparr>tokens = 0, last_refill = 1/2, bucket_burst_size = 2\<rparr>],
             tb_refill_rate = 2\<rparr>)
   \<and> (1/2 - 1 < real_of_int 0 \<and> real_of_int 0 - 1/2 < real_of_int 1 + 1)
   \<and> SlidingWindowLimiter_is_allowed
        \<lparr>sw_config = policy 1 10 SLIDING_WINDOW, sw_windows = [''c1'' \<mapsto> [0]]\<rparr> ''c1'' (5/2)
     = Inr (\<lparr>allowed = False, remaining = 0, reset_time = 12, retry_after = Some 8,
             requests_in_window = 1\<rparr>,
            \<lparr>sw_config = policy 1 10 SLIDING_WINDOW, sw_windows = [''c1'' \<mapsto> [0]]\<rparr>)
   \<and> (5/2 \<le> real_of_int 12 \<and> real_of_int 12 - 5/2 < real_of_int 10 + 1)
   \<and> LeakyBucketLimiter_is_allowed
        \<lparr>lb_config = policy 1 10 SLIDING_WINDOW,
         lb_buckets = [''c1'' \<mapsto> \<lparr>queue = [0], last_leak_time = 0, total_leaked = 0\<rparr>],
         leak_rate = 1/10\<rparr> ''c1'' 1 1 1 1
     = Inr (\<lparr>allowed = False, remaining = 0, reset_time = 11, retry_after = Some 10,
             requests_in_window = 1\<rparr>,
            \<lparr>lb_config = policy 1 10 SLIDING_WINDOW,
             lb_buckets = [''c1'' \<mapsto> \<lparr>queue = [0], last_leak_time = 1, total_leaked = 0\<rparr>],
             leak_rate = 1/10\<rparr>)
   \<and> (1 - 1 < real_of_int 11 \<and> real_of_int 11 - 1 < real_of_int 10 + 1)
   \<and> FixedWindowLimiter_is_allowed
        \<lparr>fw_config = policy 1 10 SLIDING_WINDOW,
         fw_windows = [''c1'' \<mapsto> \<lparr>count = 1, window_start = 0\<rparr>]\<rparr> ''c1'' (5/2) (5/2)
     = (\<lparr>allowed = False, remaining = 0, reset_time = 10, retry_after = Some 7,
         requests_in_window = 1\<rparr>,
        \<lparr>fw_config = policy 1 10 SLIDING_WINDOW,
         fw_windows = [''c1'' \<mapsto> \<lparr>count = 1, window_start = 0\<rparr>]\<rparr>)
   \<and> (5/2 - 1 < real_of_int 10 \<and> real_of_int 10 - 5/2 < real_of_int 10 + 1)"
proof -
  let ?tc = "policy 2 1 TOKEN_BUCKET"
  let ?tb = "\<lparr>tb_config = ?tc,
      tb_buckets = [''c1'' \<mapsto> \<lparr>tokens = 0, last_refill = 1/2, bucket_burst_size = 2\<rparr>],
      tb_refill_rate = 2\<rparr>"
  let ?tr = "\<lparr>allowed = False, remaining = 0, reset_time = 0, retry_after = Some 0,
         requests_in_window = 2\<rparr>"
  have t1: "0 < max_requests ?tc" and t2: "0 < time_window ?tc" and t3: "time_window ?tc = 1"
    by (simp_all add: policy_def)
  have t4: "tb_built ?tc ?tb \<and> refill_rate ?tc = None
      \<and> TokenBucketLimiter_is_allowed ?tb ''c1'' (1/2) (1/2) (1/2) = Inr (?tr, ?tb)
      \<and> \<not> allowed ?tr"
    by (simp add: tb_built_def TokenBucketLimiter_init_def TokenBucketLimiter_is_allowed_def
          TokenBucketLimiter_refill_def tb_getitem_def py_truediv_def policy_def py_int_def)
  have T: "1/2 - 1 < real_of_int 0 \<and> real_of_int 0 - 1/2 < real_of_int 1 + 1"
    using rejection_reset_time_bounds [OF t1 t2] t4 t3
    by (metis RateLimitResponse.select_convs(3))
  let ?c = "policy 1 10 SLIDING_WINDOW"
  have c1: "0 < max_requests ?c" and c2: "0 < time_window ?c" and c3: "time_window ?c = 10"
    by (simp_all add: policy_def)
  let ?sw = "\<lparr>sw_config = ?c, sw_windows = [''c1'' \<mapsto> [0]]\<rparr>"
  let ?sr = "\<lparr>allowed = False, remaining = 0, reset_time = 12, retry_after = Some 8,
           requests_in_window = 1\<rparr>"
  have s4: "sw_built ?c ?sw \<and> SlidingWindowLimiter_is_allowed ?sw ''c1'' (5/2) = Inr (?sr, ?sw)
      \<and> \<not> allowed ?sr"
    by (simp add: sw_built_def SlidingWindowLimiter_init_def SlidingWindowLimiter_is_allowed_def
          sw_getitem_def Let_def policy_def py_int_def)
  have S: "5/2 \<le> real_of_int 12 \<and> real_of_int 12 - 5/2 < real_of_int 10 + 1"
    using rejection_reset_time_bounds [OF c1 c2] s4 c3
    by (metis RateLimitResponse.select_convs(3))
  let ?lb = "\<lparr>lb_config = ?c,
      lb_buckets = [''c1'' \<mapsto> \<lparr>queue = [0], last_leak_time = 0, total_leaked = 0\<rparr>],
      leak_rate = 1/10\<rparr>"
  let ?lb' = "\<lparr>lb_config = ?c,
      lb_buckets = [''c1'' \<mapsto> \<lparr>queue = [0], last_leak_time = 1, total_leaked = 0\<rparr>],
      leak_rate = 1/10\<rparr>"
  let ?lr = "\<lparr>allowed = False, remaining = 0, reset_time = 11, retry_after = Some 10,
           requests_in_window = 1\<rparr>"
  have l4: "lb_built ?c ?lb \<and> LeakyBucketLimiter_is_allowed ?lb ''c1'' 1 1 1 1 = Inr (?lr, ?lb')
      \<and> \<not> allowed ?lr"
    by (simp add: lb_built_def LeakyBucketLimiter_init_def LeakyBucketLimiter_is_allowed_def
          LeakyBucketLimiter_leak_def lb_getitem_def py_truediv_def policy_def py_int_def)
  have L: "1 - 1 < real_of_int 11 \<and> real_of_int 11 - 1 < real_of_int 10 + 1"
    using rejection_reset_time_bounds [OF c1 c2] l4 c3
    by (metis RateLimitResponse.select_convs(3))
  let ?fw = "\<lparr>fw_config = ?c, fw_windows = [''c1'' \<mapsto> \<lparr>count = 1, window_start = 0\<rparr>]\<rparr>"
  let ?fr = "\<lparr>allowed = False, remaining = 0, reset_time = 10, retry_after = Some 7,
           requests_in_window = 1\<rparr>"
  have f4: "fw_built ?c ?fw \<and> FixedWindowLimiter_is_allowed ?fw ''c1'' (5/2) (5/2) = (?fr, ?fw)
      \<and> \<not> allowed ?fr \<and> (\<forall>w. fw_windows ?fw ''c1'' = Some w \<longrightarrow> window_start w \<le> 5/2)"
    by (simp add: fw_built_def FixedWindowLimiter_init_def FixedWindowLimiter_is_allowed_def
          fw_getitem_def fw_roll_def Let_def policy_def py_int_def)
  have F: "5/2 - 1 < real_of_int 10 \<and> real_of_int 10 - 5/2 < real_of_int 10 + 1"
    using rejection_reset_time_bounds [OF c1 c2] f4 c3
    by (metis RateLimitResponse.select_convs(3))
  from T S L F t4 s4 l4 f4 show ?thesis by blast
qed

text \<open>
  The claim as stated fails. With capacity 2 per 1 second and the clock at 1/2, the third
  call is rejected with \<open>reset_time = 0 < now\<close>. With an explicit \<open>refill_rate\<close> of 1/1000
  and window 1, the rejection at clock 0 has \<open>reset_time = 1000 > now + window + 1\<close>.
\<close>

theorem reset_time_before_now_counterexample:
  "map_sum id (map (\<lambda>r. (allowed r, reset_time r)) \<circ> fst)
       (TokenBucketLimiter_run
          \<lparr>tb_config = policy 2 1 TOKEN_BUCKET, tb_buckets = Map.empty, tb_refill_rate = 2\<rparr>
          ''c1'' [1/2, 1/2, 1/2])
     = Inr [(True, 1), (True, 1), (False, 0)]
   \<and> real_of_int 0 < 1/2
   \<and> TokenBucketLimiter_init ((policy 1 1 TOKEN_BUCKET)\<lparr>refill_rate := Some (1/1000)\<rparr>) =
       Inr \<lparr>tb_config = (policy 1 1 TOKEN_BUCKET)\<lparr>refill_rate := Some (1/1000)\<rparr>,
            tb_buckets = Map.empty, tb_refill_rate = 1/1000\<rparr>
   \<and> map_sum id (map (\<lambda>r. (allowed r, reset_time r)) \<circ> fst)
       (TokenBucketLimiter_run
          \<lparr>tb_config = (policy 1 1 TOKEN_BUCKET)\<lparr>refill_rate := Some (1/1000)\<rparr>,
            tb_buckets = Map.empty, tb_refill_rate = 1/1000\<rparr>
          ''c1'' [0, 0])
     = Inr [(True, 1), (False, 1000)]
   \<and> real_of_int 1 + 1 < real_of_int 1000 - 0"
  by (simp add: TokenBucketLimiter_init_def TokenBucketLimiter_is_allowed_def
        TokenBucketLimiter_refill_def tb_getitem_def py_truediv_def Let_def
        tb_default_bucket_def burst_or_max_def policy_def py_int_def)

section \<open>SlidingWindow: admission bound\<close>


lemma sw_invI:
  assumes "sorted dq" "sorted H" "\<And>t. t \<in> set dq \<Longrightarrow> t \<le> T" "\<And>t. t \<in> set H \<Longrightarrow> t \<le> T"
      and "\<And>x. T - W \<le> x \<Longrightarrow> filter (\<lambda>t. x \<le> t) H = filter (\<lambda>t. x \<le> t) dq"
      and "\<And>a. int (length (filter (\<lambda>t. a \<le> t \<and> t \<le> a + W) H)) \<le> cap"
  shows "sw_inv W cap T dq H"
  unfolding sw_inv_def using assms by blast

lemma sw_invD:
  assumes "sw_inv W cap T dq H"
  shows "sorted dq" "sorted H" "t \<in> set dq \<Longrightarrow> t \<le> T" "t \<in> set H \<Longrightarrow> t \<le> T"
    and "T - W \<le> x \<Longrightarrow> filter (\<lambda>t. x \<le> t) H = filter (\<lambda>t. x \<le> t) dq"
    and "int (length (filter (\<lambda>t. a \<le> t \<and> t \<le> a + W) H)) \<le> cap"
  using assms unfolding sw_inv_def by blast+

lemma length_filter_le_imp:
  "(\<And>x. x \<in> set xs \<Longrightarrow> P x \<Longrightarrow> Q x) \<Longrightarrow> length (filter P xs) \<le> length (filter Q xs)"
  by (induction xs) auto

lemma sw_inv_mono:
  assumes "sw_inv W cap T dq H" "T \<le> T'"
  shows "sw_inv W cap T' dq H"
proof (rule sw_invI)
  show "sorted dq" "sorted H" using sw_invD(1,2) [OF assms(1)] .
  show "t \<le> T'" if "t \<in> set dq" for t using sw_invD(3) [OF assms(1) that] assms(2) by simp
  show "t \<le> T'" if "t \<in> set H" for t using sw_invD(4) [OF assms(1) that] assms(2) by simp
  show "filter (\<lambda>t. x \<le> t) H = filter (\<lambda>t. x \<le> t) dq" if "T' - W \<le> x" for x
  proof -
    have "T - W \<le> x" using that assms(2) by simp
    then show ?thesis by (rule sw_invD(5) [OF assms(1)])
  qed
  show "int (length (filter (\<lambda>t. a \<le> t \<and> t \<le> a + W) H)) \<le> cap" for a
    by (rule sw_invD(6) [OF assms(1)])
qed

lemma sw_inv_empty: "0 \<le> cap \<Longrightarrow> sw_inv W cap T [] []"
  by (simp add: sw_inv_def)


lemma filter_ge_filter_ge:
  fixes x y :: real
  assumes "y \<le> x"
  shows "filter (\<lambda>t. x \<le> t) (filter (\<lambda>t. y \<le> t) xs) = filter (\<lambda>t. x \<le> t) xs"
  using assms by (induction xs) auto

lemma sw_inv_reject:
  assumes "sw_inv W cap T dq H" "T \<le> now"
  shows "sw_inv W cap now (sw_evict (now - W) dq) H"
proof -
  have e: "sw_evict (now - W) dq = filter (\<lambda>t. now - W \<le> t) dq"
    by (rule sw_evict_sorted_filter [OF sw_invD(1) [OF assms(1)]])
  have m: "sw_inv W cap now dq H" by (rule sw_inv_mono [OF assms])
  show ?thesis
    unfolding e
  proof (rule sw_invI)
    show "sorted (filter (\<lambda>t. now - W \<le> t) dq)"
      using sw_invD(1) [OF m] by (rule sorted_wrt_filter)
    show "sorted H" by (rule sw_invD(2) [OF m])
    show "t \<le> now" if "t \<in> set (filter (\<lambda>t. now - W \<le> t) dq)" for t
      using that sw_invD(3) [OF m, of t] by simp
    show "t \<le> now" if "t \<in> set H" for t by (rule sw_invD(4) [OF m that])
    show "filter (\<lambda>t. x \<le> t) H = filter (\<lambda>t. x \<le> t) (filter (\<lambda>t. now - W \<le> t) dq)"
      if "now - W \<le> x" for x
      using sw_invD(5) [OF m that] filter_ge_filter_ge [OF that, of dq] by simp
    show "int (length (filter (\<lambda>t. a \<le> t \<and> t \<le> a + W) H)) \<le> cap" for a
      by (rule sw_invD(6) [OF m])
  qed
qed

lemma sw_inv_admit:
  assumes "sw_inv W cap T dq H" "T \<le> now"
      and "int (length (sw_evict (now - W) dq)) < cap"
  shows "sw_inv W cap now (sw_evict (now - W) dq @ [now]) (H @ [now])"
proof -
  let ?dq = "sw_evict (now - W) dq"
  have r: "sw_inv W cap now ?dq H" by (rule sw_inv_reject [OF assms(1,2)])
  have eqH: "filter (\<lambda>t. now - W \<le> t) H = filter (\<lambda>t. now - W \<le> t) ?dq"
    by (rule sw_invD(5) [OF r]) simp
  have "int (length (filter (\<lambda>t. now - W \<le> t) H))
          = int (length (filter (\<lambda>t. now - W \<le> t) ?dq))"
    by (simp only: eqH)
  also have "\<dots> \<le> int (length ?dq)" by simp
  also have "\<dots> < cap" by (rule assms(3))
  finally have lenH: "int (length (filter (\<lambda>t. now - W \<le> t) H)) < cap" .
  show ?thesis
  proof (rule sw_invI)
    show "sorted (?dq @ [now])"
      using sw_invD(1) [OF r] sw_invD(3) [OF r] by (simp add: sorted_append)
    show "sorted (H @ [now])"
      using sw_invD(2) [OF r] sw_invD(4) [OF r] by (simp add: sorted_append)
    show "t \<le> now" if "t \<in> set (?dq @ [now])" for t
      using that sw_invD(3) [OF r, of t] by auto
    show "t \<le> now" if "t \<in> set (H @ [now])" for t
      using that sw_invD(4) [OF r, of t] by auto
    show "filter (\<lambda>t. x \<le> t) (H @ [now]) = filter (\<lambda>t. x \<le> t) (?dq @ [now])"
      if "now - W \<le> x" for x
      using sw_invD(5) [OF r that] by simp
    show "int (length (filter (\<lambda>t. a \<le> t \<and> t \<le> a + W) (H @ [now]))) \<le> cap" for a
    proof (cases "a \<le> now \<and> now \<le> a + W")
      case True
      have "length (filter (\<lambda>t. a \<le> t \<and> t \<le> a + W) H)
              \<le> length (filter (\<lambda>t. now - W \<le> t) H)"
      proof (rule length_filter_le_imp)
        fix t assume "a \<le> t \<and> t \<le> a + W"
        then show "now - W \<le> t" using True by simp
      qed
      then show ?thesis using True lenH by simp
    next
      case False
      then show ?thesis using sw_invD(6) [OF r, of a] by auto
    qed
  qed
qed


lemma sw_is_allowed_step:
  assumes "0 < max_requests (sw_config self)"
  shows "\<exists>r s. SlidingWindowLimiter_is_allowed self c now = Inr (r, s)
     \<and> sw_config s = sw_config self
     \<and> (allowed r \<longleftrightarrow>
          int (length (sw_evict (now - of_int (time_window (sw_config self))) (sw_getitem self c)))
            < max_requests (sw_config self))
     \<and> sw_getitem s c =
          sw_evict (now - of_int (time_window (sw_config self))) (sw_getitem self c)
            @ (if allowed r then [now] else [])
     \<and> (\<forall>c'. c' \<noteq> c \<longrightarrow> sw_getitem s c' = sw_getitem self c')"
proof (cases "int (length (sw_evict (now - of_int (time_window (sw_config self))) (sw_getitem self c)))
            < max_requests (sw_config self)")
  case True
  then show ?thesis
    by (simp add: SlidingWindowLimiter_is_allowed_def Let_def sw_getitem_def)
next
  case False
  with assms obtain w0 ws where
    "sw_evict (now - of_int (time_window (sw_config self))) (sw_getitem self c) = w0 # ws"
    by (cases "sw_evict (now - of_int (time_window (sw_config self))) (sw_getitem self c)") auto
  with False show ?thesis
    by (simp add: SlidingWindowLimiter_is_allowed_def Let_def sw_getitem_def)
qed


lemma sw_run_bound:
  assumes "0 < max_requests (sw_config self)"
      and "sorted (map snd calls)" "\<forall>p\<in>set calls. T \<le> snd p"
      and "\<forall>c. sw_inv (of_int (time_window (sw_config self))) (max_requests (sw_config self)) T
                 (sw_getitem self c) (H c)"
  shows "\<exists>rs s. SlidingWindowLimiter_run self calls = Inr (rs, s)
           \<and> (\<forall>c a. int (length (filter
                  (\<lambda>t. a \<le> t \<and> t \<le> a + of_int (time_window (sw_config self)))
                  (H c @ admitted_at c calls rs))) \<le> max_requests (sw_config self))"
  using assms
proof (induction calls arbitrary: self H T)
  case Nil
  show ?case
    using sw_invD(6) [OF Nil.prems(4) [rule_format]] by simp
next
  case (Cons p calls)
  obtain c0 now where p: "p = (c0, now)" by (cases p)
  let ?W = "real_of_int (time_window (sw_config self))"
  let ?cap = "max_requests (sw_config self)"
  let ?dq = "sw_evict (now - ?W) (sw_getitem self c0)"
  from sw_is_allowed_step [OF Cons.prems(1), of c0 now]
  obtain r s1 where st: "SlidingWindowLimiter_is_allowed self c0 now = Inr (r, s1)"
    and cfg: "sw_config s1 = sw_config self"
    and al: "allowed r \<longleftrightarrow> int (length ?dq) < ?cap"
    and own: "sw_getitem s1 c0 = ?dq @ (if allowed r then [now] else [])"
    and others: "\<forall>c'. c' \<noteq> c0 \<longrightarrow> sw_getitem s1 c' = sw_getitem self c'"
    by blast
  have Tnow: "T \<le> now" using Cons.prems(3) p by simp
  define H1 where "H1 = H(c0 := H c0 @ (if allowed r then [now] else []))"
  have inv1: "sw_inv ?W ?cap now (sw_getitem s1 c) (H1 c)" for c
  proof (cases "c = c0")
    case True
    show ?thesis
    proof (cases "allowed r")
      case True
      with al have "int (length ?dq) < ?cap" by simp
      from sw_inv_admit [OF Cons.prems(4) [rule_format] Tnow this]
      show ?thesis using \<open>c = c0\<close> True own by (simp add: H1_def)
    next
      case False
      from sw_inv_reject [OF Cons.prems(4) [rule_format] Tnow]
      show ?thesis using \<open>c = c0\<close> False own by (simp add: H1_def)
    qed
  next
    case False
    from sw_inv_mono [OF Cons.prems(4) [rule_format] Tnow]
    show ?thesis using False others by (simp add: H1_def)
  qed
  have a1: "0 < max_requests (sw_config s1)" using Cons.prems(1) cfg by simp
  have a2: "sorted (map snd calls)" using Cons.prems(2) by simp
  have a3: "\<forall>q\<in>set calls. now \<le> snd q" using Cons.prems(2) p by auto
  have a4: "\<forall>c. sw_inv (real_of_int (time_window (sw_config s1))) (max_requests (sw_config s1)) now
                 (sw_getitem s1 c) (H1 c)"
    using inv1 cfg by simp
  from Cons.IH [OF a1 a2 a3 a4]
  obtain rs s where run: "SlidingWindowLimiter_run s1 calls = Inr (rs, s)"
    and bnd: "\<forall>c a. int (length (filter (\<lambda>t. a \<le> t \<and> t \<le> a + ?W)
                  (H1 c @ admitted_at c calls rs))) \<le> ?cap"
    using cfg by auto
  have run': "SlidingWindowLimiter_run self (p # calls) = Inr (r # rs, s)"
    using st run p by simp
  have hist: "H c @ admitted_at c (p # calls) (r # rs) = H1 c @ admitted_at c calls rs" for c
    using p by (simp add: H1_def)
  have "\<forall>c a. int (length (filter (\<lambda>t. a \<le> t \<and> t \<le> a + ?W)
                  (H c @ admitted_at c (p # calls) (r # rs)))) \<le> ?cap"
    unfolding hist by (rule bnd)
  with run' show ?case by blast
qed


text \<open>
  C1 (as amended). For a SlidingWindow limiter built from a policy with positive capacity,
  every sequence of \<open>is_allowed\<close> calls (of any clients) whose clock readings never
  decrease runs without exception, and for every client and every closed interval
  \<open>[a, a + window]\<close> the number of admitted calls of that client whose clock readings fall
  into the interval is at most the capacity. (TokenBucket and LeakyBucket do not satisfy
  this bound, FixedWindow is excepted by the claim.)
\<close>

theorem sw_admission_bound:
  assumes "0 < max_requests config"
      and "sorted (map snd calls)"
  shows "\<exists>rs s. SlidingWindowLimiter_run (SlidingWindowLimiter_init config) calls = Inr (rs, s)
           \<and> (\<forall>c a. int (length (filter
                  (\<lambda>t. a \<le> t \<and> t \<le> a + of_int (time_window config))
                  (admitted_at c calls rs))) \<le> max_requests config)"
proof -
  let ?self = "SlidingWindowLimiter_init config"
  define T where "T = (case calls of [] \<Rightarrow> 0 | p # _ \<Rightarrow> snd p)"
  have cfg: "sw_config ?self = config" by (simp add: SlidingWindowLimiter_init_def)
  have a1: "0 < max_requests (sw_config ?self)" using assms(1) cfg by simp
  have a3: "\<forall>p\<in>set calls. T \<le> snd p"
    using assms(2) by (cases calls) (auto simp: T_def)
  have a4: "\<forall>c. sw_inv (of_int (time_window (sw_config ?self))) (max_requests (sw_config ?self)) T
                 (sw_getitem ?self c) ((\<lambda>_. []) c)"
    using assms(1) by (simp add: sw_getitem_def SlidingWindowLimiter_init_def sw_inv_empty)
  from sw_run_bound [OF a1 assms(2) a3 a4] show ?thesis
    unfolding cfg by simp
qed

text \<open>
  Witness: capacity 2 per 10 seconds; the admissions at 0, 0 and 21/2, seen from the
  interval starting at 1/2.
\<close>

theorem sw_admission_bound_witness:
  "sorted (map snd [(''c1'', 0), (''c1'', 0), (''c1'', 0), (''c1'', 10), (''c1'', 21/2 :: real)])
   \<and> map_sum id (map allowed \<circ> fst)
        (SlidingWindowLimiter_run (SlidingWindowLimiter_init (policy 2 10 SLIDING_WINDOW))
           [(''c1'', 0), (''c1'', 0), (''c1'', 0), (''c1'', 10), (''c1'', 21/2)])
      = Inr [True, True, False, False, True]
   \<and> (\<exists>rs s. SlidingWindowLimiter_run (SlidingWindowLimiter_init (policy 2 10 SLIDING_WINDOW))
           [(''c1'', 0), (''c1'', 0), (''c1'', 0), (''c1'', 10), (''c1'', 21/2)] = Inr (rs, s)
         \<and> int (length (filter (\<lambda>t. 1/2 \<le> t \<and> t \<le> 1/2 + 10)
               (admitted_at ''c1''
                  [(''c1'', 0), (''c1'', 0), (''c1'', 0), (''c1'', 10), (''c1'', 21/2)] rs))) \<le> 2)"
proof -
  let ?c = "policy 2 10 SLIDING_WINDOW"
  let ?calls = "[(''c1'', 0), (''c1'', 0), (''c1'', 0), (''c1'', 10), (''c1'', 21/2 :: real)]"
  have h1: "0 < max_requests ?c" by (simp add: policy_def)
  have h2: "sorted (map snd ?calls)" by simp
  have w: "real_of_int (time_window ?c) = 10" and m: "max_requests ?c = 2"
    by (simp_all add: policy_def)
  have e: "map_sum id (map allowed \<circ> fst)
        (SlidingWindowLimiter_run (SlidingWindowLimiter_init ?c) ?calls)
      = Inr [True, True, False, False, True]"
    by (simp add: SlidingWindowLimiter_is_allowed_def SlidingWindowLimiter_init_def
          sw_getitem_def Let_def policy_def py_int_def)
  from sw_admission_bound [OF h1 h2]
  obtain rs s where "SlidingWindowLimiter_run (SlidingWindowLimiter_init ?c) ?calls = Inr (rs, s)"
    and "\<forall>c a. int (length (filter (\<lambda>t. a \<le> t \<and> t \<le> a + real_of_int (time_window ?c))
               (admitted_at c ?calls rs))) \<le> max_requests ?c"
    by blast
  then have "\<exists>rs s. SlidingWindowLimiter_run (SlidingWindowLimiter_init ?c) ?calls = Inr (rs, s)
         \<and> int (length (filter (\<lambda>t. 1/2 \<le> t \<and> t \<le> 1/2 + 10)
               (admitted_at ''c1'' ?calls rs))) \<le> 2"
    unfolding w m by blast
  with h2 e show ?thesis by blast
qed

text \<open>
  The claim as stated fails for TokenBucket and for LeakyBucket: with capacity 2 per
  2 seconds, the calls at clock 0, 0 and 1 are all admitted, three admissions within an
  interval of length 2.
\<close>

theorem token_and_leaky_bucket_exceed_capacity_counterexample:
  "TokenBucketLimiter_init (policy 2 2 TOKEN_BUCKET) =
     Inr \<lparr>tb_config = policy 2 2 TOKEN_BUCKET, tb_buckets = Map.empty, tb_refill_rate = 1\<rparr>
   \<and> map_sum id (map allowed \<circ> fst)
       (TokenBucketLimiter_run
          \<lparr>tb_config = policy 2 2 TOKEN_BUCKET, tb_buckets = Map.empty, tb_refill_rate = 1\<rparr>
          ''c1'' [0, 0, 1])
     = Inr [True, True, True]
   \<and> LeakyBucketLimiter_init (policy 2 2 LEAKY_BUCKET) =
       Inr \<lparr>lb_config = policy 2 2 LEAKY_BUCKET, lb_buckets = Map.empty, leak_rate = 1\<rparr>
   \<and> map_sum id (map allowed \<circ> fst)
       (LeakyBucketLimiter_run
          \<lparr>lb_config = policy 2 2 LEAKY_BUCKET, lb_buckets = Map.empty, leak_rate = 1\<rparr>
          ''c1'' [0, 0, 1])
     = Inr [True, True, True]
   \<and> max_requests (policy 2 2 TOKEN_BUCKET)
       < int (length (filter (\<lambda>t. 0 \<le> t \<and> t \<le> 0 + real_of_int (time_window (policy 2 2 TOKEN_BUCKET)))
                        [0, 0, 1]))"
  by (simp add: TokenBucketLimiter_init_def TokenBucketLimiter_is_allowed_def
        TokenBucketLimiter_refill_def tb_getitem_def py_truediv_def Let_def
        tb_default_bucket_def burst_or_max_def policy_def py_int_def
        LeakyBucketLimiter_init_def LeakyBucketLimiter_is_allowed_def
        LeakyBucketLimiter_leak_def lb_getitem_def lb_default_bucket_def)

end
